theory Spec2Isabelle
  imports Main "HOL-Library.Word"
begin

unbundle bit_operations_syntax

section \<open>PowerDNS Recursor control-socket client: a shallow embedding\<close>

text \<open>
  The development follows the three Go files of the plugin:
  \<^item> \<^verbatim>\<open>protocol_commons.go\<close>: \<^verbatim>\<open>parseResponse\<close>, \<^verbatim>\<open>getEndianness\<close>,
    \<^verbatim>\<open>writeNativeUIntToConn\<close>, \<^verbatim>\<open>readNativeUIntFromConn\<close>;
  \<^item> the v3 driver \<^verbatim>\<open>gatherFromV3Server\<close>;
  \<^item> \<^verbatim>\<open>powerdns_recursor.go\<close>: \<^verbatim>\<open>Gather\<close>, \<^verbatim>\<open>gatherServer\<close> and its own
    copy of \<^verbatim>\<open>parseResponse\<close> (the same loop, with a log line on a parse failure).
  Go strings are byte sequences and so are Isabelle's: \<open>string\<close> is \<open>char list\<close> and a
  \<open>char\<close> is one byte. A \<^verbatim>\<open>[]byte\<close> is a list of 8-bit words.
\<close>

type_synonym byte = "8 word"

subsection \<open>Errors\<close>

text \<open>
  Every \<^verbatim>\<open>error\<close> value the code creates or passes on. \<open>ErrOS\<close> stands for an error
  handed back by the operating system or the \<^verbatim>\<open>net\<close> package (refused connection,
  timeout, end of file, ...); the others are the \<^verbatim>\<open>fmt.Errorf\<close>/\<^verbatim>\<open>errors.New\<close> values
  of the source, with the numbers they format.
\<close>

datatype error =
    ErrOS string
  | ErrUnknownNetwork string
  | ErrClosed
  | ErrUnsupported
  | ErrShortUInt nat nat
  | ErrNoStatusCode
  | ErrZeroLength
  | ErrShortBody nat nat
  | ErrNoData
  | PanicMakeSlice

text \<open>The two errors of \<^verbatim>\<open>strconv\<close>: \<^verbatim>\<open>ErrSyntax\<close> and \<^verbatim>\<open>ErrRange\<close>.\<close>

datatype NumError = ErrSyntax | ErrRange

subsection \<open>The machine and the world outside the program\<close>

datatype ByteOrder = LittleEndian | BigEndian

text \<open>
  The platform the client is compiled for and runs on: \<open>uintSizeInBytes\<close> is the constant
  \<^verbatim>\<open>strconv.IntSize / 8\<close>, \<open>cpu_order\<close> the order in which the processor lays out a
  multi-byte integer in memory, and \<open>maxAlloc\<close> the largest slice length \<^verbatim>\<open>make\<close>
  accepts before it panics.
\<close>

record platform =
  uintSizeInBytes :: nat
  cpu_order :: ByteOrder
  maxAlloc :: nat

text \<open>
  The state threaded through every call that touches the outside:
  \<^item> \<open>fs\<close>: the file-system nodes that exist;
  \<^item> \<open>rng\<close>, \<open>rng_pos\<close>: the stream \<^verbatim>\<open>rand.Int63\<close> draws from and how far it has been read;
  \<^item> \<open>call_errs\<close>, \<open>call_pos\<close>: the outcome of every system call that only reports an
    error (bind, connect, set deadline, write, chmod), in call order, and how many of them
    have been made;
  \<^item> \<open>reads\<close>: the outcome of each next \<^verbatim>\<open>conn.Read\<close>, in call order: an error, or the
    bytes the call delivers; once used up a read reports end of file;
  \<^item> \<open>dials\<close>: the remote address of every dial attempted so far;
  \<^item> \<open>open_conns\<close>, \<open>next_conn\<close>: the connections currently open and the next handle;
  \<^item> \<open>sent\<close>: the payload of every successful \<^verbatim>\<open>conn.Write\<close>, in order;
  \<^item> \<open>acc_fields\<close>, \<open>acc_errors\<close>: what the accumulator has received through
    \<^verbatim>\<open>AddFields\<close> (measurement, fields, tags) and \<^verbatim>\<open>AddError\<close>;
  \<^item> \<open>log_lines\<close>: the lines written with \<^verbatim>\<open>log.Printf\<close>.
\<close>

record world =
  plat :: platform
  fs :: "string set"
  rng :: "nat \<Rightarrow> nat"
  rng_pos :: nat
  call_errs :: "nat \<Rightarrow> error option"
  call_pos :: nat
  reads :: "(error + byte list) list"
  dials :: "string list"
  open_conns :: "nat set"
  next_conn :: nat
  sent :: "byte list list"
  acc_fields :: "(string \<times> (string \<rightharpoonup> int) \<times> (string \<rightharpoonup> string)) list"
  acc_errors :: "error list"
  log_lines :: "(string \<times> NumError) list"

text \<open>The next outcome of an error-only system call.\<close>

definition next_call :: "world \<Rightarrow> error option \<times> world" where
  "next_call w = (call_errs w (call_pos w), w\<lparr>call_pos := Suc (call_pos w)\<rparr>)"

text \<open>
  \<^verbatim>\<open>conn.Write(b)\<close>: returns the number of bytes written and an error. A successful write
  appends the payload to \<open>sent\<close> and reports its whole length.
\<close>

definition conn_Write :: "byte list \<Rightarrow> world \<Rightarrow> (nat \<times> error option) \<times> world" where
  "conn_Write b w =
     (case next_call w of
        (Some e, w1) \<Rightarrow> ((0, Some e), w1)
      | (None, w1) \<Rightarrow> ((length b, None), w1\<lparr>sent := sent w1 @ [b]\<rparr>))"

text \<open>
  \<^verbatim>\<open>conn.Read(buf)\<close>: returns the buffer after the call, the number of bytes read and an
  error. At most \<open>length buf\<close> bytes of what the call delivers are copied to the front of
  the buffer; the rest of the buffer keeps its content.
\<close>

definition conn_Read :: "byte list \<Rightarrow> world \<Rightarrow> (byte list \<times> nat \<times> error option) \<times> world" where
  "conn_Read buf w =
     (case reads w of
        [] \<Rightarrow> ((buf, 0, Some (ErrOS ''EOF'')), w)
      | Inl e # rs \<Rightarrow> ((buf, 0, Some e), w\<lparr>reads := rs\<rparr>)
      | Inr bs # rs \<Rightarrow>
          (let n = min (length buf) (length bs)
           in ((take n bs @ drop n buf, n, None), w\<lparr>reads := rs\<rparr>)))"

subsection \<open>\<^verbatim>\<open>encoding/binary\<close>: fixed-width integers as bytes\<close>

text \<open>
  \<^verbatim>\<open>PutUint32\<close> and \<^verbatim>\<open>PutUint64\<close> fill the first 4 (8) bytes of the buffer they are given,
  one shift and one truncation per byte; the code always hands them a buffer of exactly
  that length, so they are modelled as producing the bytes. \<^verbatim>\<open>Uint32\<close> and \<^verbatim>\<open>Uint64\<close>
  read the bytes at the indices 0 to 3 (0 to 7), which exist in every buffer the code
  passes.
\<close>

fun PutUint32 :: "ByteOrder \<Rightarrow> 32 word \<Rightarrow> byte list" where
  "PutUint32 LittleEndian v =
     [ucast v, ucast (drop_bit 8 v), ucast (drop_bit 16 v), ucast (drop_bit 24 v)]"
| "PutUint32 BigEndian v =
     [ucast (drop_bit 24 v), ucast (drop_bit 16 v), ucast (drop_bit 8 v), ucast v]"

fun Uint32 :: "ByteOrder \<Rightarrow> byte list \<Rightarrow> 32 word" where
  "Uint32 LittleEndian b =
     ucast (b ! 0) OR push_bit 8 (ucast (b ! 1)) OR push_bit 16 (ucast (b ! 2))
       OR push_bit 24 (ucast (b ! 3))"
| "Uint32 BigEndian b =
     ucast (b ! 3) OR push_bit 8 (ucast (b ! 2)) OR push_bit 16 (ucast (b ! 1))
       OR push_bit 24 (ucast (b ! 0))"

fun PutUint64 :: "ByteOrder \<Rightarrow> 64 word \<Rightarrow> byte list" where
  "PutUint64 LittleEndian v =
     [ucast v, ucast (drop_bit 8 v), ucast (drop_bit 16 v), ucast (drop_bit 24 v),
      ucast (drop_bit 32 v), ucast (drop_bit 40 v), ucast (drop_bit 48 v),
      ucast (drop_bit 56 v)]"
| "PutUint64 BigEndian v =
     [ucast (drop_bit 56 v), ucast (drop_bit 48 v), ucast (drop_bit 40 v),
      ucast (drop_bit 32 v), ucast (drop_bit 24 v), ucast (drop_bit 16 v),
      ucast (drop_bit 8 v), ucast v]"

fun Uint64 :: "ByteOrder \<Rightarrow> byte list \<Rightarrow> 64 word" where
  "Uint64 LittleEndian b =
     ucast (b ! 0) OR push_bit 8 (ucast (b ! 1)) OR push_bit 16 (ucast (b ! 2))
       OR push_bit 24 (ucast (b ! 3)) OR push_bit 32 (ucast (b ! 4))
       OR push_bit 40 (ucast (b ! 5)) OR push_bit 48 (ucast (b ! 6))
       OR push_bit 56 (ucast (b ! 7))"
| "Uint64 BigEndian b =
     ucast (b ! 7) OR push_bit 8 (ucast (b ! 6)) OR push_bit 16 (ucast (b ! 5))
       OR push_bit 24 (ucast (b ! 4)) OR push_bit 32 (ucast (b ! 3))
       OR push_bit 40 (ucast (b ! 2)) OR push_bit 48 (ucast (b ! 1))
       OR push_bit 56 (ucast (b ! 0))"

subsection \<open>The native integer codec (\<^verbatim>\<open>protocol_commons.go\<close>)\<close>

text \<open>
  \<^verbatim>\<open>getEndianness\<close> stores the 16-bit value 1 through an unsafe pointer into a two-byte
  buffer and looks at the first byte: the processor's byte order decides what it finds.
\<close>

fun store_uint16 :: "ByteOrder \<Rightarrow> 16 word \<Rightarrow> byte list" where
  "store_uint16 LittleEndian v = [ucast v, ucast (drop_bit 8 v)]"
| "store_uint16 BigEndian v = [ucast (drop_bit 8 v), ucast v]"

definition getEndianness :: "world \<Rightarrow> ByteOrder" where
  "getEndianness w =
     (let buf = store_uint16 (cpu_order (plat w)) 1
      in if hd buf = 1 then LittleEndian else BigEndian)"

text \<open>
  A Go \<^verbatim>\<open>uint\<close> is a natural number below \<open>2 ^ (8 * uintSizeInBytes)\<close>; the conversions
  \<^verbatim>\<open>uint32(value)\<close> and \<^verbatim>\<open>uint64(value)\<close> are \<open>word_of_nat\<close>, and \<^verbatim>\<open>uint(x)\<close> of a fixed-width
  value is \<open>unat\<close>.
\<close>

definition writeNativeUIntToConn :: "nat \<Rightarrow> world \<Rightarrow> (nat \<times> error option) \<times> world" where
  "writeNativeUIntToConn val w =
     (if uintSizeInBytes (plat w) = 4 then
        conn_Write (PutUint32 (getEndianness w) (word_of_nat val)) w
      else if uintSizeInBytes (plat w) = 8 then
        conn_Write (PutUint64 (getEndianness w) (word_of_nat val)) w
      else ((0, Some ErrUnsupported), w))"

definition readNativeUIntFromConn :: "world \<Rightarrow> (error + nat) \<times> world" where
  "readNativeUIntFromConn w =
     (let intData = replicate (uintSizeInBytes (plat w)) (0::byte)
      in case conn_Read intData w of
           ((intData', n, Some e), w1) \<Rightarrow> (Inl e, w1)
         | ((intData', n, None), w1) \<Rightarrow>
             if n \<noteq> uintSizeInBytes (plat w) then
               (Inl (ErrShortUInt n (uintSizeInBytes (plat w))), w1)
             else if uintSizeInBytes (plat w) = 4 then
               (Inr (unat (Uint32 (getEndianness w) intData')), w1)
             else if uintSizeInBytes (plat w) = 8 then
               (Inr (unat (Uint64 (getEndianness w) intData')), w1)
             else (Inl ErrUnsupported, w1))"

subsection \<open>\<^verbatim>\<open>strings\<close> and \<^verbatim>\<open>strconv\<close>\<close>

abbreviation NL :: char where "NL \<equiv> CHR 0x0A"
abbreviation TAB :: char where "TAB \<equiv> CHR 0x09"

text \<open>
  \<^verbatim>\<open>strings.Split(s, sep)\<close> for a separator of one byte, which is how the code calls it:
  the pieces of \<open>s\<close> between the occurrences of \<open>sep\<close>, one more piece than there are
  separators.
\<close>

fun Split :: "string \<Rightarrow> char \<Rightarrow> string list" where
  "Split [] sep = [[]]"
| "Split (c # cs) sep =
     (if c = sep then [] # Split cs sep
      else (case Split cs sep of [] \<Rightarrow> [[c]] | x # xs \<Rightarrow> (c # x) # xs))"

text \<open>
  \<^verbatim>\<open>strconv.ParseUint(s, 10, 64)\<close>. The accumulator is a \<^verbatim>\<open>uint64\<close>: a natural number with
  the wrap-around of its addition written out. In base 10 a byte that is not a decimal
  digit is a syntax error (a letter is a digit of value 10 or more, which base 10 refuses);
  an overflow stops the loop at once with the largest value and a range error.
\<close>

definition is_digit :: "char \<Rightarrow> bool" where
  "is_digit c \<longleftrightarrow> (48::nat) \<le> of_char c \<and> (of_char c :: nat) \<le> 57"

fun ParseUint_loop :: "nat \<Rightarrow> string \<Rightarrow> nat \<times> NumError option" where
  "ParseUint_loop n [] = (n, None)"
| "ParseUint_loop n (c # cs) =
     (if \<not> is_digit c then (0, Some ErrSyntax)
      else if n \<ge> (2 ^ 64 - 1) div 10 + 1 then (2 ^ 64 - 1, Some ErrRange)
      else
        (let d = of_char c - (48::nat);
             n10 = n * 10;
             n1 = (n10 + d) mod 2 ^ 64
         in if n1 < n10 \<or> n1 > 2 ^ 64 - 1 then (2 ^ 64 - 1, Some ErrRange)
            else ParseUint_loop n1 cs))"

definition ParseUint :: "string \<Rightarrow> nat \<times> NumError option" where
  "ParseUint s = (if s = [] then (0, Some ErrSyntax) else ParseUint_loop 0 s)"

text \<open>
  \<^verbatim>\<open>strconv.ParseInt(s, 10, 64)\<close>: an optional sign, then \<^verbatim>\<open>ParseUint\<close>, then the check
  against the cutoff \<open>2 ^ 63\<close>. The result is an \<^verbatim>\<open>int64\<close>, given as an integer.
\<close>

definition ParseInt :: "string \<Rightarrow> int \<times> NumError option" where
  "ParseInt s0 =
     (if s0 = [] then (0, Some ErrSyntax)
      else
        (let neg = (hd s0 = CHR ''-'');
             s = (if hd s0 = CHR ''+'' \<or> hd s0 = CHR ''-'' then tl s0 else s0)
         in case ParseUint s of
              (un, Some ErrSyntax) \<Rightarrow> (0, Some ErrSyntax)
            | (un, err) \<Rightarrow>
                if \<not> neg \<and> un \<ge> 2 ^ 63 then (2 ^ 63 - 1, Some ErrRange)
                else if neg \<and> un > 2 ^ 63 then (- (2 ^ 63), Some ErrRange)
                else (if neg then - int un else int un, None)))"

text \<open>\<^verbatim>\<open>fmt.Sprintf("%d", n)\<close> for a number that is not negative.\<close>

fun FormatNat :: "nat \<Rightarrow> string" where
  "FormatNat n =
     (if n < 10 then [char_of (48 + n)]
      else FormatNat (n div 10) @ [char_of (48 + n mod 10)])"

declare FormatNat.simps [simp del]

text \<open>The conversions \<^verbatim>\<open>[]byte(s)\<close> and \<^verbatim>\<open>string(b)\<close>.\<close>

definition bytes_of_string :: "string \<Rightarrow> byte list" where
  "bytes_of_string s = map (\<lambda>c. of_char c) s"

definition string_of_bytes :: "byte list \<Rightarrow> string" where
  "string_of_bytes b = map (\<lambda>x. char_of (unat x)) b"

subsection \<open>The response decoder\<close>

text \<open>
  \<^verbatim>\<open>parseResponse\<close> of \<^verbatim>\<open>protocol_commons.go\<close>. The loop runs over \<^verbatim>\<open>s[:len(s)-1]\<close>;
  \<^verbatim>\<open>Split\<close> never returns an empty slice, so that slice expression is always in range.
  The values stored are \<^verbatim>\<open>int64\<close>.
\<close>

fun parseResponse_loop :: "(string \<rightharpoonup> int) \<Rightarrow> string list \<Rightarrow> (string \<rightharpoonup> int)" where
  "parseResponse_loop values [] = values"
| "parseResponse_loop values (metric # rest) =
     (let m = Split metric TAB
      in if length m < 2 then parseResponse_loop values rest
         else (case ParseInt (m ! 1) of
                 (i, Some err) \<Rightarrow> parseResponse_loop values rest
               | (i, None) \<Rightarrow> parseResponse_loop (values(m ! 0 \<mapsto> i)) rest))"

definition parseResponse :: "string \<Rightarrow> (string \<rightharpoonup> int)" where
  "parseResponse metrics =
     (let s = Split metrics NL
      in parseResponse_loop Map.empty (take (length s - 1) s))"

text \<open>
  \<^verbatim>\<open>parseResponse\<close> of \<^verbatim>\<open>powerdns_recursor.go\<close>: the same loop, which also logs the line
  and the error when the number does not parse.
\<close>

fun parseResponse_log_loop ::
  "(string \<rightharpoonup> int) \<Rightarrow> string list \<Rightarrow> world \<Rightarrow> (string \<rightharpoonup> int) \<times> world" where
  "parseResponse_log_loop values [] w = (values, w)"
| "parseResponse_log_loop values (metric # rest) w =
     (let m = Split metric TAB
      in if length m < 2 then parseResponse_log_loop values rest w
         else (case ParseInt (m ! 1) of
                 (i, Some err) \<Rightarrow>
                   parseResponse_log_loop values rest
                     (w\<lparr>log_lines := log_lines w @ [(metric, err)]\<rparr>)
               | (i, None) \<Rightarrow> parseResponse_log_loop (values(m ! 0 \<mapsto> i)) rest w))"

definition parseResponse_log :: "string \<Rightarrow> world \<Rightarrow> (string \<rightharpoonup> int) \<times> world" where
  "parseResponse_log metrics w =
     (let s = Split metrics NL
      in parseResponse_log_loop Map.empty (take (length s - 1) s) w)"

subsection \<open>\<^verbatim>\<open>path/filepath\<close>, \<^verbatim>\<open>math/rand\<close>, \<^verbatim>\<open>os\<close> and \<^verbatim>\<open>net\<close>\<close>

text \<open>
  \<^verbatim>\<open>strings.Join(elems, "/")\<close> and \<^verbatim>\<open>filepath.Clean\<close> as its documentation gives it: repeated
  slashes, \<^verbatim>\<open>.\<close> elements and inner \<^verbatim>\<open>..\<close> elements (with the element before them) go, a
  \<^verbatim>\<open>..\<close> at the start of a rooted path goes, and the empty result is \<^verbatim>\<open>.\<close>.
\<close>

fun strings_Join :: "string list \<Rightarrow> string" where
  "strings_Join [] = []"
| "strings_Join [e] = e"
| "strings_Join (e # es) = e @ ''/'' @ strings_Join es"

fun clean_elems :: "bool \<Rightarrow> string list \<Rightarrow> string list \<Rightarrow> string list" where
  "clean_elems rooted stack [] = rev stack"
| "clean_elems rooted stack (e # es) =
     (if e = [] \<or> e = ''.'' then clean_elems rooted stack es
      else if e = ''..'' then
        (case stack of
           [] \<Rightarrow> if rooted then clean_elems rooted [] es else clean_elems rooted [e] es
         | t # ts \<Rightarrow>
             if t = ''..'' then clean_elems rooted (e # stack) es
             else clean_elems rooted ts es)
      else clean_elems rooted (e # stack) es)"

definition filepath_Clean :: "string \<Rightarrow> string" where
  "filepath_Clean path =
     (let rooted = (path \<noteq> [] \<and> hd path = CHR ''/'');
          out = (if rooted then ''/'' else []) @
                strings_Join (clean_elems rooted [] (Split path CHR ''/''))
      in if out = [] then ''.'' else out)"

text \<open>
  \<^verbatim>\<open>filepath.Join\<close>: the elements from the first one that is not empty on, joined with
  slashes and cleaned; the empty string when every element is empty.
\<close>

definition filepath_Join :: "string list \<Rightarrow> string" where
  "filepath_Join elem =
     (case dropWhile (\<lambda>e. e = []) elem of
        [] \<Rightarrow> []
      | es \<Rightarrow> filepath_Clean (strings_Join es))"

text \<open>\<^verbatim>\<open>rand.Int63\<close>: the next number of the stream, below \<open>2 ^ 63\<close>.\<close>

definition rand_Int63 :: "world \<Rightarrow> nat \<times> world" where
  "rand_Int63 w = (rng w (rng_pos w) mod 2 ^ 63, w\<lparr>rng_pos := Suc (rng_pos w)\<rparr>)"

text \<open>
  \<^verbatim>\<open>net.ResolveUnixAddr\<close> only looks at the network name; the address it returns is the
  path it was given.
\<close>

definition ResolveUnixAddr :: "string \<Rightarrow> string \<Rightarrow> error + string" where
  "ResolveUnixAddr network address =
     (if network = ''unix'' \<or> network = ''unixgram'' \<or> network = ''unixpacket''
      then Inr address else Inl (ErrUnknownNetwork network))"

text \<open>
  \<^verbatim>\<open>net.DialUnix("unixgram", laddr, raddr)\<close>: binds a new socket to the local path, which
  creates the file-system node, and then connects it to the remote path. Either step can
  fail; when the connect fails the node of the bind remains. The result is the handle of
  the new connection.
\<close>

definition net_DialUnix :: "string \<Rightarrow> string \<Rightarrow> world \<Rightarrow> (error + nat) \<times> world" where
  "net_DialUnix laddr raddr w =
     (case next_call (w\<lparr>dials := dials w @ [raddr]\<rparr>) of
        (Some e, w1) \<Rightarrow> (Inl e, w1)
      | (None, w1) \<Rightarrow>
          (case next_call (w1\<lparr>fs := insert laddr (fs w1)\<rparr>) of
             (Some e, w2) \<Rightarrow> (Inl e, w2)
           | (None, w2) \<Rightarrow>
               (Inr (next_conn w2),
                w2\<lparr>open_conns := insert (next_conn w2) (open_conns w2),
                   next_conn := Suc (next_conn w2)\<rparr>)))"

text \<open>\<^verbatim>\<open>net.Dial("unix", address)\<close>: connects a new stream socket; no local node.\<close>

definition net_Dial :: "string \<Rightarrow> world \<Rightarrow> (error + nat) \<times> world" where
  "net_Dial address w =
     (case next_call (w\<lparr>dials := dials w @ [address]\<rparr>) of
        (Some e, w1) \<Rightarrow> (Inl e, w1)
      | (None, w1) \<Rightarrow>
          (Inr (next_conn w1),
           w1\<lparr>open_conns := insert (next_conn w1) (open_conns w1),
              next_conn := Suc (next_conn w1)\<rparr>))"

text \<open>
  \<^verbatim>\<open>conn.Close()\<close> closes an open connection and reports an error on one that is closed
  already. \<^verbatim>\<open>conn.SetDeadline\<close> and \<^verbatim>\<open>os.Chmod\<close> are system calls that succeed or fail
  (time and permission bits are not part of the state). \<^verbatim>\<open>os.Remove\<close> unlinks the node
  when it exists and reports an error otherwise.
\<close>

definition conn_Close :: "nat \<Rightarrow> world \<Rightarrow> error option \<times> world" where
  "conn_Close c w =
     (if c \<in> open_conns w then (None, w\<lparr>open_conns := open_conns w - {c}\<rparr>)
      else (Some ErrClosed, w))"

definition conn_SetDeadline :: "world \<Rightarrow> error option \<times> world" where
  "conn_SetDeadline w = next_call w"

definition os_Chmod :: "string \<Rightarrow> 32 word \<Rightarrow> world \<Rightarrow> error option \<times> world" where
  "os_Chmod name m w = next_call w"

definition os_Remove :: "string \<Rightarrow> world \<Rightarrow> error option \<times> world" where
  "os_Remove name w =
     (if name \<in> fs w then (None, w\<lparr>fs := fs w - {name}\<rparr>)
      else (Some (ErrOS ''ENOENT''), w))"

text \<open>The accumulator: \<^verbatim>\<open>acc.AddFields\<close> and \<^verbatim>\<open>acc.AddError\<close>.\<close>

definition acc_AddFields ::
  "string \<Rightarrow> (string \<rightharpoonup> int) \<Rightarrow> (string \<rightharpoonup> string) \<Rightarrow> world \<Rightarrow> world" where
  "acc_AddFields measurement flds tags w =
     w\<lparr>acc_fields := acc_fields w @ [(measurement, flds, tags)]\<rparr>"

definition acc_AddError :: "error \<Rightarrow> world \<Rightarrow> world" where
  "acc_AddError err w = w\<lparr>acc_errors := acc_errors w @ [err]\<rparr>"

subsection \<open>The v3 stream driver\<close>

text \<open>
  \<^verbatim>\<open>gatherFromV3Server\<close>. A function with a \<^verbatim>\<open>defer\<close> is split where the \<^verbatim>\<open>defer\<close> stands:
  \<open>gatherFromV3Server_conn\<close> is the code after \<^verbatim>\<open>defer conn.Close()\<close>, and the function
  itself runs the deferred call on whatever that code returns. Every
  \<^verbatim>\<open>if err != nil { return err }\<close> is a \<open>Some e\<close> branch. \<^verbatim>\<open>make([]byte, responseLength)\<close>
  panics for a length the allocator refuses; the panic leaves the function like an error.
\<close>

definition gatherFromV3Server_conn :: "string \<Rightarrow> nat \<Rightarrow> world \<Rightarrow> error option \<times> world" where
  "gatherFromV3Server_conn address conn w =
     (case conn_SetDeadline w of
        (Some err, w1) \<Rightarrow> (Some err, w1)
      | (None, w1) \<Rightarrow>
     (case conn_Write [0, 0, 0, 0] w1 of
        ((_, Some err), w2) \<Rightarrow> (Some err, w2)
      | ((_, None), w2) \<Rightarrow>
     (let command = bytes_of_string ''get-all'' in
      case writeNativeUIntToConn (length command) w2 of
        ((_, Some err), w3) \<Rightarrow> (Some err, w3)
      | ((_, None), w3) \<Rightarrow>
     (case conn_Write command w3 of
        ((_, Some err), w4) \<Rightarrow> (Some err, w4)
      | ((_, None), w4) \<Rightarrow>
     (case conn_Read (replicate 4 0) w4 of
        ((status, n, Some err), w5) \<Rightarrow> (Some err, w5)
      | ((status, n, None), w5) \<Rightarrow>
          if n = 0 then (Some ErrNoStatusCode, w5)
          else
     (case readNativeUIntFromConn w5 of
        (Inl err, w6) \<Rightarrow> (Some err, w6)
      | (Inr responseLength, w6) \<Rightarrow>
          if responseLength = 0 then (Some ErrZeroLength, w6)
          else if responseLength > maxAlloc (plat w6) then (Some PanicMakeSlice, w6)
          else
     (case conn_Read (replicate responseLength 0) w6 of
        ((data, n, Some err), w7) \<Rightarrow> (Some err, w7)
      | ((data, n, None), w7) \<Rightarrow>
          if n \<noteq> responseLength then (Some (ErrShortBody responseLength n), w7)
          else
            (let metrics = string_of_bytes data;
                 flds = parseResponse metrics;
                 tags = [''server'' \<mapsto> address];
                 w8 = acc_AddFields ''powerdns_recursor'' flds tags w7
             in conn_Close conn w8))))))))"

definition gatherFromV3Server :: "string \<Rightarrow> world \<Rightarrow> error option \<times> world" where
  "gatherFromV3Server address w =
     (case net_Dial address w of
        (Inl err, w1) \<Rightarrow> (Some err, w1)
      | (Inr conn, w1) \<Rightarrow>
          (case gatherFromV3Server_conn address conn w1 of
             (r, w2) \<Rightarrow> (r, snd (conn_Close conn w2))))"

subsection \<open>The plugin: \<^verbatim>\<open>gatherServer\<close> and \<^verbatim>\<open>Gather\<close>\<close>

record PowerdnsRecursor =
  UnixSockets :: "string list"
  SocketDir :: string
  SocketMode :: string
  NewControlProtocol :: bool
  mode :: "32 word"

definition bufSize :: nat where
  "bufSize = 16384"

text \<open>
  \<^verbatim>\<open>gatherServer\<close> has two \<^verbatim>\<open>defer\<close>s. \<open>gatherServer_conn\<close> is the code after
  \<^verbatim>\<open>defer conn.Close()\<close>, \<open>gatherServer_sock\<close> the code after \<^verbatim>\<open>defer os.Remove(recvSocket)\<close>;
  each caller runs the deferred call on whatever the code below it returns. The reply
  is decoded from the whole buffer, \<^verbatim>\<open>string(buf)\<close>, not from the \<open>n\<close> bytes read.
\<close>

definition gatherServer_conn ::
  "string \<Rightarrow> bool \<Rightarrow> nat \<Rightarrow> world \<Rightarrow> error option \<times> world" where
  "gatherServer_conn address newProtocol conn w =
     (case conn_SetDeadline w of
        (Some err, w1) \<Rightarrow> (Some err, w1)
      | (None, w1) \<Rightarrow>
     (case (if newProtocol then
              (case conn_Write [0, 0, 0, 0] w1 of ((_, err), w2) \<Rightarrow> (err, w2))
            else (None, w1)) of
        (Some err, w2) \<Rightarrow> (Some err, w2)
      | (None, w2) \<Rightarrow>
     (let command = (if newProtocol then ''get-all'' else ''get-all'' @ [NL]) in
      case conn_Write (bytes_of_string command) w2 of
        ((_, Some err), w3) \<Rightarrow> (Some err, w3)
      | ((_, None), w3) \<Rightarrow>
     (case (if newProtocol then
              (case conn_Read (replicate 4 0) w3 of
                 ((status, n, Some err), w4) \<Rightarrow> (Some err, w4)
               | ((status, n, None), w4) \<Rightarrow>
                   if n = 0 then (Some ErrNoStatusCode, w4) else (None, w4))
            else (None, w3)) of
        (Some err, w4) \<Rightarrow> (Some err, w4)
      | (None, w4) \<Rightarrow>
     (case conn_Read (replicate bufSize 0) w4 of
        ((buf, n, Some err), w5) \<Rightarrow> (Some err, w5)
      | ((buf, n, None), w5) \<Rightarrow>
          if n = 0 then (Some ErrNoData, w5)
          else
            (let metrics = string_of_bytes buf in
             case parseResponse_log metrics w5 of
               (flds, w6) \<Rightarrow>
                 (let tags = [''server'' \<mapsto> address];
                      w7 = acc_AddFields ''powerdns_recursor'' flds tags w6
                  in conn_Close conn w7)))))))"

definition gatherServer_sock ::
  "PowerdnsRecursor \<Rightarrow> string \<Rightarrow> bool \<Rightarrow> string \<Rightarrow> string \<Rightarrow> world \<Rightarrow> error option \<times> world" where
  "gatherServer_sock p address newProtocol recvSocket laddr w =
     (case ResolveUnixAddr ''unixgram'' address of
        Inl err \<Rightarrow> (Some err, w)
      | Inr raddr \<Rightarrow>
     (case net_DialUnix laddr raddr w of
        (Inl err, w1) \<Rightarrow> (Some err, w1)
      | (Inr conn, w1) \<Rightarrow>
     (case os_Chmod recvSocket (mode p) w1 of
        (Some err, w2) \<Rightarrow> (Some err, w2)
      | (None, w2) \<Rightarrow>
          (case gatherServer_conn address newProtocol conn w2 of
             (r, w3) \<Rightarrow> (r, snd (conn_Close conn w3))))))"

definition recvSocket_name :: "PowerdnsRecursor \<Rightarrow> nat \<Rightarrow> string" where
  "recvSocket_name p randomNumber =
     (let recvSocket =
            filepath_Join [''/'', ''var'', ''run'',
                           ''pdns_recursor_telegraf'' @ FormatNat randomNumber]
      in if SocketDir p \<noteq> []
         then filepath_Join [SocketDir p, ''pdns_recursor_telegraf'' @ FormatNat randomNumber]
         else recvSocket)"

definition gatherServer ::
  "PowerdnsRecursor \<Rightarrow> string \<Rightarrow> bool \<Rightarrow> world \<Rightarrow> error option \<times> world" where
  "gatherServer p address newProtocol w =
     (case rand_Int63 w of
        (randomNumber, w1) \<Rightarrow>
     (let recvSocket = recvSocket_name p randomNumber in
      case ResolveUnixAddr ''unixgram'' recvSocket of
        Inl err \<Rightarrow> (Some err, w1)
      | Inr laddr \<Rightarrow>
          (case gatherServer_sock p address newProtocol recvSocket laddr w1 of
             (r, w2) \<Rightarrow> (r, snd (os_Remove recvSocket w2)))))"

text \<open>\<^verbatim>\<open>Gather\<close>: the default socket when none is configured, else the loop over them.\<close>

fun Gather_loop :: "PowerdnsRecursor \<Rightarrow> string list \<Rightarrow> world \<Rightarrow> world" where
  "Gather_loop p [] w = w"
| "Gather_loop p (serverSocket # rest) w =
     (case gatherServer p serverSocket (NewControlProtocol p) w of
        (Some err, w1) \<Rightarrow> Gather_loop p rest (acc_AddError err w1)
      | (None, w1) \<Rightarrow> Gather_loop p rest w1)"

definition Gather :: "PowerdnsRecursor \<Rightarrow> world \<Rightarrow> error option \<times> world" where
  "Gather p w =
     (if length (UnixSockets p) = 0 then
        gatherServer p ''/var/run/pdns_recursor.controlsocket'' (NewControlProtocol p) w
      else (None, Gather_loop p (UnixSockets p) w))"

subsection \<open>Test doubles and vocabulary for the statements\<close>

text \<open>
  A world in which nothing has happened yet and no peer answers, on a given platform,
  and the four platforms the codec distinguishes. The largest slice a 64-bit platform
  allocates is \<open>2 ^ 48\<close> bytes; on a 32-bit platform a length is at most the largest
  \<^verbatim>\<open>int\<close>, \<open>2 ^ 31 - 1\<close>.
\<close>

definition idle_world :: "platform \<Rightarrow> world" where
  "idle_world pl =
     \<lparr>plat = pl, fs = {}, rng = (\<lambda>_. 0), rng_pos = 0, call_errs = (\<lambda>_. None),
      call_pos = 0, reads = [],
      dials = [], open_conns = {}, next_conn = 0, sent = [], acc_fields = [],
      acc_errors = [], log_lines = []\<rparr>"

definition test_platform :: "nat \<Rightarrow> ByteOrder \<Rightarrow> platform" where
  "test_platform sz order =
     \<lparr>uintSizeInBytes = sz, cpu_order = order,
      maxAlloc = (if sz = 8 then 2 ^ 48 else 2 ^ 31 - 1)\<rparr>"

text \<open>
  The lines the decoder loops over: every piece of the split at line breaks but the last.
\<close>

definition lines_of :: "string \<Rightarrow> string list" where
  "lines_of s = take (length (Split s NL) - 1) (Split s NL)"

text \<open>
  What a decimal rendering of a signed 64-bit integer is, said without the parser: an
  optional sign, then at least one decimal digit, with the value the digits denote in
  positional notation, inside the \<^verbatim>\<open>int64\<close> range.
\<close>

definition dec_value :: "string \<Rightarrow> nat" where
  "dec_value ds = foldl (\<lambda>a c. 10 * a + (of_char c - 48)) 0 ds"

definition decimal_int64 :: "string \<Rightarrow> int \<Rightarrow> bool" where
  "decimal_int64 val v \<longleftrightarrow>
     val \<noteq> [] \<and>
     (let ds = (if hd val = CHR ''+'' \<or> hd val = CHR ''-'' then tl val else val)
      in ds \<noteq> [] \<and> list_all is_digit ds \<and>
         v = (if hd val = CHR ''-'' then - int (dec_value ds) else int (dec_value ds)) \<and>
         - (2 ^ 63) \<le> v \<and> v < 2 ^ 63)"

text \<open>
  The native-width, host-order encoding of a number (on a platform of width 4 or 8), and
  the world a v3 exchange leaves
  behind once its five system calls (connect, set deadline, three writes) have succeeded
  and the connection is closed again: one more dial, the three payloads sent, and the
  read script \<open>r\<close> that is left.
\<close>

definition native_bytes :: "platform \<Rightarrow> nat \<Rightarrow> byte list" where
  "native_bytes pl v =
     (if uintSizeInBytes pl = 4 then PutUint32 (cpu_order pl) (word_of_nat v)
      else PutUint64 (cpu_order pl) (word_of_nat v))"

definition v3_done :: "string \<Rightarrow> world \<Rightarrow> (error + byte list) list \<Rightarrow> world" where
  "v3_done address w r =
     w\<lparr>dials := dials w @ [address],
       call_pos := call_pos w + 5,
       open_conns := open_conns w - {next_conn w},
       next_conn := Suc (next_conn w),
       sent := sent w @ [[0, 0, 0, 0], native_bytes (plat w) 7, bytes_of_string ''get-all''],
       reads := r\<rparr>"

text \<open>
  Two worlds with the same dial log, the same accumulator content and the same file
  system: what a system call on an open connection leaves alone.
\<close>

definition same_record :: "world \<Rightarrow> world \<Rightarrow> bool" where
  "same_record w w' \<longleftrightarrow>
     dials w' = dials w \<and> acc_errors w' = acc_errors w \<and> fs w' = fs w
     \<and> acc_fields w' = acc_fields w"


definition v3_config :: "string list \<Rightarrow> PowerdnsRecursor" where
  "v3_config sockets =
     \<lparr>UnixSockets = sockets, SocketDir = [], SocketMode = [], NewControlProtocol = True,
      mode = 0x1B6\<rparr>"




section \<open>Properties\<close>

subsection \<open>The native integer codec\<close>

lemma byte_piece:
  "bit (push_bit k (ucast (ucast (drop_bit k (v::'a::len word)) :: byte) :: 'a word)) n
     \<longleftrightarrow> k \<le> n \<and> n < k + 8 \<and> bit v n"
  by (auto simp add: bit_simps dest: bit_imp_le_length)

lemma byte_piece0:
  "bit (ucast (ucast (v::'a::len word) :: byte) :: 'a word) n \<longleftrightarrow> n < 8 \<and> bit v n"
  by (auto simp add: bit_simps dest: bit_imp_le_length)

lemma Uint32_PutUint32: "Uint32 e (PutUint32 e v) = v"
proof (rule bit_word_eqI)
  fix n assume "n < LENGTH(32)"
  then have n: "n < 32" by simp
  show "bit (Uint32 e (PutUint32 e v)) n = bit v n"
    using n by (cases e) (auto simp add: bit_or_iff byte_piece byte_piece0)
qed

lemma Uint64_PutUint64: "Uint64 e (PutUint64 e v) = v"
proof (rule bit_word_eqI)
  fix n assume "n < LENGTH(64)"
  then have n: "n < 64" by simp
  show "bit (Uint64 e (PutUint64 e v)) n = bit v n"
    using n by (cases e) (auto simp add: bit_or_iff byte_piece byte_piece0)
qed

lemma length_PutUint32: "length (PutUint32 e v) = 4"
  by (cases e) simp_all

lemma length_PutUint64: "length (PutUint64 e v) = 8"
  by (cases e) simp_all

text \<open>The probe of \<^verbatim>\<open>getEndianness\<close> finds the byte order of the processor.\<close>

lemma getEndianness_cpu_order: "getEndianness w = cpu_order (plat w)"
  by (cases "cpu_order (plat w)") (simp_all add: getEndianness_def)

text \<open>
  C1. On a platform whose native width is 4 or 8 bytes, of either byte order, writing a
  number that the native \<^verbatim>\<open>uint\<close> can hold and reading back the bytes that were written
  returns the number: the write reports the native width and no error, and
  \<^verbatim>\<open>readNativeUIntFromConn\<close>, given the payload just sent as the next thing to read,
  returns the number written.
\<close>

theorem native_uint_roundtrip:
  assumes width: "uintSizeInBytes (plat w) = 4 \<or> uintSizeInBytes (plat w) = 8"
    and repr: "n < 2 ^ (8 * uintSizeInBytes (plat w))"
    and wr: "fst (next_call w) = None"
  shows "case writeNativeUIntToConn n w of
           (r, w1) \<Rightarrow>
             r = (uintSizeInBytes (plat w), None) \<and>
             sent w1 \<noteq> [] \<and>
             fst (readNativeUIntFromConn (w1\<lparr>reads := [Inr (last (sent w1))]\<rparr>)) = Inr n"
proof -
  obtain w0 where nc: "next_call w = (None, w0)"
    using wr by (cases "next_call w") simp
  have pl: "plat w0 = plat w"
    using nc by (auto simp add: next_call_def)
  from width show ?thesis
  proof
    assume four: "uintSizeInBytes (plat w) = 4"
    with repr have "n < 2 ^ 32" by simp
    then have un: "unat (word_of_nat n :: 32 word) = n"
      by (simp add: unat_of_nat)
    show ?thesis
      using four un
      by (simp add: writeNativeUIntToConn_def conn_Write_def nc readNativeUIntFromConn_def
          pl getEndianness_cpu_order conn_Read_def length_PutUint32 Uint32_PutUint32)
  next
    assume eight: "uintSizeInBytes (plat w) = 8"
    with repr have "n < 2 ^ 64" by simp
    then have un: "unat (word_of_nat n :: 64 word) = n"
      by (simp add: unat_of_nat)
    show ?thesis
      using eight un
      by (simp add: writeNativeUIntToConn_def conn_Write_def nc readNativeUIntFromConn_def
          pl getEndianness_cpu_order conn_Read_def length_PutUint64 Uint64_PutUint64)
  qed
qed

theorem native_uint_roundtrip_witness:
  "(case writeNativeUIntToConn 4660 (idle_world (test_platform 4 BigEndian)) of
      (r, w1) \<Rightarrow>
        r = (4, None) \<and> sent w1 = [[0, 0, 0x12, 0x34]] \<and>
        fst (readNativeUIntFromConn (w1\<lparr>reads := [Inr (last (sent w1))]\<rparr>)) = Inr 4660)
   \<and> (case writeNativeUIntToConn 4660 (idle_world (test_platform 8 LittleEndian)) of
      (r, w1) \<Rightarrow>
        r = (8, None) \<and> sent w1 = [[0x34, 0x12, 0, 0, 0, 0, 0, 0]] \<and>
        fst (readNativeUIntFromConn (w1\<lparr>reads := [Inr (last (sent w1))]\<rparr>)) = Inr 4660)"
  using native_uint_roundtrip [of "idle_world (test_platform 4 BigEndian)" 4660]
    native_uint_roundtrip [of "idle_world (test_platform 8 LittleEndian)" 4660]
  by (simp add: idle_world_def test_platform_def next_call_def writeNativeUIntToConn_def
      conn_Write_def getEndianness_def split: prod.splits)

subsection \<open>\<^verbatim>\<open>strings.Split\<close>\<close>

lemma Split_not_Nil [simp]: "Split s sep \<noteq> []"
  by (induction s) (auto split: list.splits)

lemma Split_no_sep: "sep \<notin> set s \<Longrightarrow> Split s sep = [s]"
  by (induction s) auto

lemma Split_append:
  "Split (a @ b) sep =
     butlast (Split a sep) @ [last (Split a sep) @ hd (Split b sep)] @ tl (Split b sep)"
proof (induction a)
  case Nil
  then show ?case by simp
next
  case (Cons c cs)
  obtain x xs where sp: "Split cs sep = x # xs"
    by (cases "Split cs sep") simp_all
  show ?case
  proof (cases "c = sep")
    case True
    then show ?thesis using Cons by simp
  next
    case False
    then show ?thesis using Cons sp by (cases xs) auto
  qed
qed

lemma last_Split_sep:
  assumes "a \<noteq> []" and "last a = sep"
  shows "last (Split a sep) = []"
proof -
  have "a = butlast a @ [sep]"
    using assms by (metis append_butlast_last_id)
  then have "Split a sep = Split (butlast a @ [sep]) sep" by simp
  then show ?thesis by (simp add: Split_append)
qed

lemma Split_after_sep:
  assumes "a = [] \<or> last a = sep"
  shows "Split (a @ b) sep = butlast (Split a sep) @ Split b sep"
proof -
  have "last (Split a sep) = []"
    using assms by (cases "a = []") (simp_all add: last_Split_sep)
  then show ?thesis by (simp add: Split_append)
qed

lemma lines_of_butlast: "lines_of s = butlast (Split s NL)"
  by (simp add: lines_of_def butlast_conv_take)

lemma lines_of_append:
  "a = [] \<or> last a = NL \<Longrightarrow> lines_of (a @ b) = lines_of a @ lines_of b"
  by (simp add: lines_of_butlast Split_after_sep butlast_append)

lemma lines_of_no_NL: "NL \<notin> set t \<Longrightarrow> lines_of t = []"
  by (simp add: lines_of_butlast Split_no_sep)

lemma lines_of_line: "NL \<notin> set l \<Longrightarrow> lines_of (l @ [NL]) = [l]"
  by (simp add: lines_of_butlast Split_append Split_no_sep)

lemma lines_of_line_Cons: "NL \<notin> set l \<Longrightarrow> lines_of (l @ NL # b) = l # lines_of b"
  using lines_of_append [of "l @ [NL]" b] by (simp add: lines_of_line)

lemma parseResponse_lines: "parseResponse s = parseResponse_loop Map.empty (lines_of s)"
  by (simp add: parseResponse_def lines_of_def Let_def)

lemma parseResponse_loop_append:
  "parseResponse_loop vs (xs @ ys) = parseResponse_loop (parseResponse_loop vs xs) ys"
  by (induction xs arbitrary: vs) (auto simp add: Let_def split: prod.splits option.splits)


lemma Split_line: "sep \<notin> set a \<Longrightarrow> Split (a @ sep # b) sep = a # Split b sep"
  by (simp add: Split_append Split_no_sep)

subsection \<open>ParseInt on decimal numerals\<close>

lemma foldl_digits_ge: "m \<le> foldl (\<lambda>a c. 10 * a + (of_char c - 48)) (m::nat) cs"
proof (induction cs arbitrary: m)
  case Nil
  then show ?case by simp
next
  case (Cons c cs)
  have "m \<le> 10 * m + (of_char c - 48)" by simp
  also have "\<dots> \<le> foldl (\<lambda>a c. 10 * a + (of_char c - 48)) (10 * m + (of_char c - 48)) cs"
    by (rule Cons.IH)
  finally show ?case by simp
qed

lemma ParseUint_loop_digits:
  "list_all is_digit ds \<Longrightarrow> foldl (\<lambda>a c. 10 * a + (of_char c - 48)) n ds < 2 ^ 64 \<Longrightarrow>
   ParseUint_loop n ds = (foldl (\<lambda>a c. 10 * a + (of_char c - 48)) n ds, None)"
proof (induction ds arbitrary: n)
  case Nil
  then show ?case by simp
next
  case (Cons c cs)
  let ?d = "of_char c - (48::nat)"
  have dig: "is_digit c" and rest: "list_all is_digit cs"
    using Cons.prems(1) by simp_all
  have bound: "foldl (\<lambda>a c. 10 * a + (of_char c - 48)) (10 * n + ?d) cs < 2 ^ 64"
    using Cons.prems(2) by simp
  have "10 * n + ?d \<le> foldl (\<lambda>a c. 10 * a + (of_char c - 48)) (10 * n + ?d) cs"
    by (rule foldl_digits_ge)
  with bound have small: "10 * n + ?d < 2 ^ 64" by linarith
  then have cut: "\<not> n \<ge> (2 ^ 64 - 1) div 10 + 1" by simp
  have md: "(n * 10 + ?d) mod 2 ^ 64 = 10 * n + ?d"
    using small by (simp add: mult.commute)
  have "ParseUint_loop n (c # cs) = ParseUint_loop (10 * n + ?d) cs"
    using dig cut md small by (simp add: Let_def mult.commute)
  also have "\<dots> = (foldl (\<lambda>a c. 10 * a + (of_char c - 48)) (10 * n + ?d) cs, None)"
    using rest bound by (rule Cons.IH)
  finally show ?case by simp
qed

lemma ParseUint_digits:
  "ds \<noteq> [] \<Longrightarrow> list_all is_digit ds \<Longrightarrow> dec_value ds < 2 ^ 64 \<Longrightarrow>
   ParseUint ds = (dec_value ds, None)"
  by (simp add: ParseUint_def dec_value_def ParseUint_loop_digits)

lemma is_digit_not_sign: "is_digit c \<Longrightarrow> c \<noteq> CHR ''+'' \<and> c \<noteq> CHR ''-'' \<and> c \<noteq> TAB \<and> c \<noteq> NL"
  by (auto simp add: is_digit_def)

lemma ParseInt_decimal:
  assumes "decimal_int64 val v"
  shows "ParseInt val = (v, None)"
proof -
  let ?ds = "if hd val = CHR ''+'' \<or> hd val = CHR ''-'' then tl val else val"
  from assms have ne: "val \<noteq> []" and ds: "?ds \<noteq> []" and dig: "list_all is_digit ?ds"
    and v: "v = (if hd val = CHR ''-'' then - int (dec_value ?ds) else int (dec_value ?ds))"
    and lo: "- (2 ^ 63) \<le> v" and hi: "v < 2 ^ 63"
    by (simp_all add: decimal_int64_def Let_def)
  have b63: "hd val \<noteq> CHR ''-'' \<Longrightarrow> dec_value ?ds < 2 ^ 63"
    using v hi by (simp split: if_splits) 
  have b63n: "hd val = CHR ''-'' \<Longrightarrow> dec_value ?ds \<le> 2 ^ 63"
    using v lo by (simp split: if_splits)
  have "dec_value ?ds < 2 ^ 64"
    using b63 b63n by (cases "hd val = CHR ''-''") auto
  with ds dig have pu: "ParseUint ?ds = (dec_value ?ds, None)"
    by (rule ParseUint_digits)
  show ?thesis
  proof (cases "hd val = CHR ''-''")
    case True
    then show ?thesis
      using ne pu v b63n by (simp add: ParseInt_def Let_def)
  next
    case False
    then show ?thesis
      using ne pu v b63 by (auto simp add: ParseInt_def Let_def)
  qed
qed

lemma digits_no_separator:
  "list_all is_digit ds \<Longrightarrow> TAB \<notin> set ds \<and> NL \<notin> set ds"
  by (induction ds) (auto dest: is_digit_not_sign)

lemma decimal_int64_chars:
  assumes "decimal_int64 val v"
  shows "TAB \<notin> set val \<and> NL \<notin> set val"
proof -
  from assms obtain c cs where val: "val = c # cs"
    by (cases val) (simp_all add: decimal_int64_def)
  show ?thesis
  proof (cases "c = CHR ''+'' \<or> c = CHR ''-''")
    case True
    with assms val have "list_all is_digit cs"
      by (simp add: decimal_int64_def Let_def)
    then have "TAB \<notin> set cs \<and> NL \<notin> set cs" by (rule digits_no_separator)
    with True val show ?thesis by auto
  next
    case False
    with assms val have "list_all is_digit val"
      by (simp add: decimal_int64_def Let_def)
    then show ?thesis by (rule digits_no_separator)
  qed
qed


subsection \<open>The decoder\<close>

lemma lines_of_unlines:
  "\<forall>l\<in>set ls. NL \<notin> set l \<Longrightarrow> lines_of (concat (map (\<lambda>l. l @ [NL]) ls)) = ls"
  by (induction ls) (simp_all add: lines_of_no_NL lines_of_line_Cons)

lemma loop_valid_line:
  assumes "2 \<le> length (Split l TAB)" and "ParseInt (Split l TAB ! 1) = (v, None)"
  shows "parseResponse_loop vs (l # rest) = parseResponse_loop (vs(Split l TAB ! 0 \<mapsto> v)) rest"
  using assms by (simp add: Let_def)

lemma loop_bad_line:
  assumes "length (Split l TAB) < 2 \<or> snd (ParseInt (Split l TAB ! 1)) \<noteq> None"
  shows "parseResponse_loop vs (l # rest) = parseResponse_loop vs rest"
  using assms by (auto simp add: Let_def split: prod.splits option.splits)

lemma Split_metric_line:
  "TAB \<notin> set name \<Longrightarrow> TAB \<notin> set val \<Longrightarrow> Split (name @ TAB # val) TAB = [name, val]"
  by (simp add: Split_line Split_no_sep)

lemma loop_wf_line:
  assumes "TAB \<notin> set name" and "decimal_int64 val v"
  shows "parseResponse_loop vs ((name @ TAB # val) # rest) = parseResponse_loop (vs(name \<mapsto> v)) rest"
proof -
  have sp: "Split (name @ TAB # val) TAB = [name, val]"
    using assms decimal_int64_chars [of val v] by (simp add: Split_metric_line)
  show ?thesis
    using loop_valid_line [of "name @ TAB # val" v vs rest] sp ParseInt_decimal [OF assms(2)]
    by simp
qed

lemma loop_wf_lines:
  "\<forall>(name, val, v)\<in>set ps. TAB \<notin> set name \<and> decimal_int64 val v \<Longrightarrow>
   parseResponse_loop vs (map (\<lambda>(name, val, v). name @ TAB # val) ps)
     = vs ++ map_of (rev (map (\<lambda>(name, val, v). (name, v)) ps))"
proof (induction ps arbitrary: vs)
  case Nil
  then show ?case by simp
next
  case (Cons p ps)
  obtain name val v where p: "p = (name, val, v)" by (cases p)
  have hd_ok: "TAB \<notin> set name" "decimal_int64 val v"
    using Cons.prems p by simp_all
  have tl_ok: "\<forall>(name, val, v)\<in>set ps. TAB \<notin> set name \<and> decimal_int64 val v"
    using Cons.prems by simp
  have "parseResponse_loop vs (map (\<lambda>(name, val, v). name @ TAB # val) (p # ps))
        = parseResponse_loop (vs(name \<mapsto> v)) (map (\<lambda>(name, val, v). name @ TAB # val) ps)"
    using hd_ok p by (simp add: loop_wf_line del: parseResponse_loop.simps(2))
  also have "\<dots> = vs(name \<mapsto> v) ++ map_of (rev (map (\<lambda>(name, val, v). (name, v)) ps))"
    using tl_ok by (rule Cons.IH)
  also have "\<dots> = vs ++ map_of (rev (map (\<lambda>(name, val, v). (name, v)) (p # ps)))"
    by (simp add: p map_add_def fun_eq_iff split: option.splits)
  finally show ?case .
qed

text \<open>
  C3. A text made of lines \<open>name TAB value LF\<close>, where no name holds a tab or a line break
  and every value is the decimal rendering of a signed 64-bit integer, decodes to exactly
  the listed pairs: each name is mapped to the integer its value denotes (the last one
  when a name is listed twice) and no other name is mapped. For \<open>a TAB 1 LF b TAB 2 LF\<close>
  the result is \<open>{a: 1, b: 2}\<close>.
\<close>

theorem parseResponse_well_formed:
  assumes "\<forall>(name, val, v)\<in>set ps.
             NL \<notin> set name \<and> TAB \<notin> set name \<and> decimal_int64 val v"
  shows "parseResponse (concat (map (\<lambda>(name, val, v). name @ [TAB] @ val @ [NL]) ps))
           = map_of (rev (map (\<lambda>(name, val, v). (name, v)) ps))"
proof -
  let ?ls = "map (\<lambda>(name, val, v). name @ TAB # val) ps"
  have nl: "\<forall>l\<in>set ?ls. NL \<notin> set l"
    using assms decimal_int64_chars by fastforce
  have "concat (map (\<lambda>(name, val, v). name @ [TAB] @ val @ [NL]) ps)
          = concat (map (\<lambda>l. l @ [NL]) ?ls)"
    by (induction ps) auto
  then have "lines_of (concat (map (\<lambda>(name, val, v). name @ [TAB] @ val @ [NL]) ps)) = ?ls"
    using nl by (simp only: lines_of_unlines)
  moreover have "parseResponse_loop Map.empty ?ls
          = Map.empty ++ map_of (rev (map (\<lambda>(name, val, v). (name, v)) ps))"
    using assms by (intro loop_wf_lines) auto
  ultimately show ?thesis by (simp add: parseResponse_lines)
qed

theorem parseResponse_well_formed_witness:
  "parseResponse (''a'' @ [TAB] @ ''1'' @ [NL] @ ''b'' @ [TAB] @ ''2'' @ [NL])
     = [''a'' \<mapsto> 1, ''b'' \<mapsto> 2]"
  using parseResponse_well_formed [of "[(''a'', ''1'', 1), (''b'', ''2'', 2)]"]
  by (simp add: decimal_int64_def dec_value_def is_digit_def fun_eq_iff)

text \<open>
  C4. A whole line that has fewer than two tab-separated fields, or whose second field
  \<^verbatim>\<open>ParseInt\<close> rejects, changes nothing: the text decodes to what it decodes to without
  that line, so every other line is still processed. The decoder has no error result at
  all (\<open>Split_not_Nil\<close>: the slice \<^verbatim>\<open>s[:len(s)-1]\<close> is always in range).
\<close>

theorem parseResponse_skips_bad_line:
  assumes "pre = [] \<or> last pre = NL" and "NL \<notin> set l"
    and "length (Split l TAB) < 2 \<or> snd (ParseInt (Split l TAB ! 1)) \<noteq> None"
  shows "parseResponse (pre @ l @ [NL] @ post) = parseResponse (pre @ post)"
proof -
  have "lines_of (pre @ l @ [NL] @ post) = lines_of pre @ l # lines_of post"
    using assms(1,2) by (simp add: lines_of_append lines_of_line_Cons)
  moreover have "lines_of (pre @ post) = lines_of pre @ lines_of post"
    using assms(1) by (rule lines_of_append)
  ultimately show ?thesis
    using assms(3)
    by (simp add: parseResponse_lines parseResponse_loop_append loop_bad_line
        del: parseResponse_loop.simps(2))
qed

theorem parseResponse_skips_bad_line_witness:
  "parseResponse (''a'' @ [TAB] @ ''NaN'' @ [NL] @ ''b'' @ [TAB] @ ''2'' @ [NL]) = [''b'' \<mapsto> 2]
   \<and> parseResponse (''onlykey'' @ [NL] @ ''b'' @ [TAB] @ ''2'' @ [NL]) = [''b'' \<mapsto> 2]"
  using parseResponse_skips_bad_line [of "[]" "''a'' @ [TAB] @ ''NaN''" "''b'' @ [TAB] @ ''2'' @ [NL]"]
    parseResponse_skips_bad_line [of "[]" "''onlykey''" "''b'' @ [TAB] @ ''2'' @ [NL]"]
  by (simp add: parseResponse_def ParseInt_def ParseUint_def is_digit_def)

lemma loop_other_names:
  "\<forall>l\<in>set ls. \<not> (2 \<le> length (Split l TAB) \<and> Split l TAB ! 0 = name \<and>
                     snd (ParseInt (Split l TAB ! 1)) = None) \<Longrightarrow>
   parseResponse_loop vs ls name = vs name"
  by (induction ls arbitrary: vs) (auto simp add: Let_def split: prod.splits option.splits)

text \<open>
  C5. When a name appears on several valid lines, the decoder maps it to the value of the
  last of them: if \<open>l\<close> is a valid line for \<open>name\<close> with value \<open>v\<close> and no complete line
  after it is a valid line for \<open>name\<close>, the result maps \<open>name\<close> to \<open>v\<close>, whatever came
  before.
\<close>

theorem parseResponse_last_write_wins:
  assumes "pre = [] \<or> last pre = NL" and "NL \<notin> set l"
    and "2 \<le> length (Split l TAB)" and "Split l TAB ! 0 = name"
    and "ParseInt (Split l TAB ! 1) = (v, None)"
    and "\<forall>l'\<in>set (butlast (Split post NL)).
           \<not> (2 \<le> length (Split l' TAB) \<and> Split l' TAB ! 0 = name \<and>
              snd (ParseInt (Split l' TAB ! 1)) = None)"
  shows "parseResponse (pre @ l @ [NL] @ post) name = Some v"
proof -
  have "lines_of (pre @ l @ [NL] @ post) = lines_of pre @ l # lines_of post"
    using assms(1,2) by (simp add: lines_of_append lines_of_line_Cons)
  then have "parseResponse (pre @ l @ [NL] @ post) name
      = parseResponse_loop ((parseResponse_loop Map.empty (lines_of pre))(name \<mapsto> v))
          (lines_of post) name"
    using assms(3,4,5)
    by (simp add: parseResponse_lines parseResponse_loop_append loop_valid_line
        del: parseResponse_loop.simps(2))
  also have "\<dots> = ((parseResponse_loop Map.empty (lines_of pre))(name \<mapsto> v)) name"
    using assms(6) by (intro loop_other_names) (simp add: lines_of_butlast)
  finally show ?thesis by simp
qed

theorem parseResponse_last_write_wins_witness:
  "parseResponse (''a'' @ [TAB] @ ''1'' @ [NL] @ ''a'' @ [TAB] @ ''2'' @ [NL] @ ''b'' @ [TAB] @ ''3'' @ [NL])
     ''a'' = Some 2"
  using parseResponse_last_write_wins [of "''a'' @ [TAB] @ ''1'' @ [NL]" "''a'' @ [TAB] @ ''2''"
      "''a''" 2 "''b'' @ [TAB] @ ''3'' @ [NL]"]
  by (simp add: ParseInt_def ParseUint_def is_digit_def)

text \<open>
  C10. Whatever follows the last line break is ignored, empty or not: appending a segment
  without a line break to a text that is empty or ends in a line break does not change
  the result. So \<open>a TAB 1\<close> without a final line break decodes to the empty mapping.
\<close>

theorem parseResponse_drops_final_segment:
  assumes "pre = [] \<or> last pre = NL" and "NL \<notin> set t"
  shows "parseResponse (pre @ t) = parseResponse pre"
  using assms by (simp add: parseResponse_lines lines_of_append lines_of_no_NL)

theorem parseResponse_drops_final_segment_witness:
  "parseResponse (''a'' @ [TAB] @ ''1'') = Map.empty
   \<and> parseResponse (''b'' @ [TAB] @ ''2'' @ [NL] @ ''a'' @ [TAB] @ ''1'') = [''b'' \<mapsto> 2]"
  using parseResponse_drops_final_segment [of "[]" "''a'' @ [TAB] @ ''1''"]
    parseResponse_drops_final_segment [of "''b'' @ [TAB] @ ''2'' @ [NL]" "''a'' @ [TAB] @ ''1''"]
  by (simp add: parseResponse_def ParseInt_def ParseUint_def is_digit_def)


subsection \<open>The v3 exchange\<close>

lemma conn_Read_cases:
  obtains (eof) "r = []" | (err) e rs where "r = Inl e # rs" | (data) bs rs where "r = Inr bs # rs"
proof (cases r)
  case Nil
  then show ?thesis by (rule eof)
next
  case (Cons a list)
  then show ?thesis by (cases a) (auto intro: err data)
qed

lemma readNative_head:
  "reads w = Inr lb # rs \<Longrightarrow>
   readNativeUIntFromConn w
     = (fst (readNativeUIntFromConn (w\<lparr>reads := [Inr lb]\<rparr>)), w\<lparr>reads := rs\<rparr>)"
  by (simp add: readNativeUIntFromConn_def conn_Read_def Let_def getEndianness_cpu_order
      split: prod.splits)

lemma readNative_frame:
  "plat w' = plat w \<Longrightarrow>
   fst (readNativeUIntFromConn (w'\<lparr>reads := r\<rparr>)) = fst (readNativeUIntFromConn (w\<lparr>reads := r\<rparr>))"
  by (cases r rule: conn_Read_cases)
    (simp_all add: readNativeUIntFromConn_def conn_Read_def Let_def getEndianness_cpu_order)

lemma readNative_width:
  "fst (readNativeUIntFromConn w) = Inr L \<Longrightarrow>
   uintSizeInBytes (plat w) = 4 \<or> uintSizeInBytes (plat w) = 8"
  by (auto simp add: readNativeUIntFromConn_def conn_Read_def Let_def
      split: prod.splits list.splits sum.splits if_splits)

lemma writeNative_ok:
  assumes "uintSizeInBytes (plat w) = 4 \<or> uintSizeInBytes (plat w) = 8"
    and "call_errs w (call_pos w) = None"
  shows "writeNativeUIntToConn v w
           = ((uintSizeInBytes (plat w), None),
              w\<lparr>call_pos := Suc (call_pos w), sent := sent w @ [native_bytes (plat w) v]\<rparr>)"
  using assms
  by (auto simp add: writeNativeUIntToConn_def conn_Write_def next_call_def native_bytes_def
      length_PutUint32 length_PutUint64 getEndianness_cpu_order)

lemma five_calls:
  assumes "\<forall>i<5. call_errs w (call_pos w + i) = None"
  shows "call_errs w (call_pos w) = None"
    and "call_errs w (Suc (call_pos w)) = None"
    and "call_errs w (Suc (Suc (call_pos w))) = None"
    and "call_errs w (Suc (Suc (Suc (call_pos w)))) = None"
    and "call_errs w (Suc (Suc (Suc (Suc (call_pos w))))) = None"
  using assms [rule_format, of 0] assms [rule_format, of 1] assms [rule_format, of 2]
    assms [rule_format, of 3] assms [rule_format, of 4]
  by (simp_all add: numeral_eq_Suc)

text \<open>
  The whole v3 exchange against a peer whose status read delivers at least one byte and
  whose next read decodes to the length \<open>L\<close>, when no system call fails.
\<close>

lemma v3_exchange:
  assumes calls: "\<forall>i<5. call_errs w (call_pos w + i) = None"
    and rd: "reads w = Inr st # Inr lb # rest" and st: "st \<noteq> []"
    and len: "fst (readNativeUIntFromConn (w\<lparr>reads := [Inr lb]\<rparr>)) = Inr L"
  shows "gatherFromV3Server address w =
     (if L = 0 then (Some ErrZeroLength, v3_done address w rest)
      else if L > maxAlloc (plat w) then (Some PanicMakeSlice, v3_done address w rest)
      else
        (case rest of
           [] \<Rightarrow> (Some (ErrOS ''EOF''), v3_done address w [])
         | Inl e # rs \<Rightarrow> (Some e, v3_done address w rs)
         | Inr body # rs \<Rightarrow>
             if length body < L
             then (Some (ErrShortBody L (length body)), v3_done address w rs)
             else (None, (v3_done address w rs)
                    \<lparr>acc_fields := acc_fields w @
                       [(''powerdns_recursor'', parseResponse (string_of_bytes (take L body)),
                         [''server'' \<mapsto> address])]\<rparr>)))"
proof -
  note c = five_calls [OF calls]
  have width: "uintSizeInBytes (plat w) = 4 \<or> uintSizeInBytes (plat w) = 8"
    using readNative_width [OF len] by simp
  have len7: "length (bytes_of_string ''get-all'') = 7"
    by (simp add: bytes_of_string_def)
  define wa where "wa = w\<lparr>dials := dials w @ [address], call_pos := Suc (call_pos w),
      open_conns := insert (next_conn w) (open_conns w), next_conn := Suc (next_conn w)\<rparr>"
  have dial: "net_Dial address w = (Inr (next_conn w), wa)"
    using c(1) by (simp add: net_Dial_def next_call_def wa_def)
  define wb where "wb = wa\<lparr>call_pos := Suc (Suc (Suc (call_pos w))), sent := sent w @ [[0, 0, 0, 0]]\<rparr>"
  have pre: "conn_SetDeadline wa = (None, wa\<lparr>call_pos := Suc (Suc (call_pos w))\<rparr>)"
    using c(2) by (simp add: conn_SetDeadline_def next_call_def wa_def)
  have w1: "conn_Write [0, 0, 0, 0] (wa\<lparr>call_pos := Suc (Suc (call_pos w))\<rparr>) = ((4, None), wb)"
    using c(3) by (simp add: conn_Write_def next_call_def wa_def wb_def)
  define wc where "wc = wb\<lparr>call_pos := Suc (call_pos wb),
      sent := sent wb @ [native_bytes (plat w) 7]\<rparr>"
  have w2: "writeNativeUIntToConn (length (bytes_of_string ''get-all'')) wb
      = ((uintSizeInBytes (plat w), None), wc)"
    unfolding len7 using writeNative_ok [of wb 7] width c(4)
    by (simp add: wa_def wb_def wc_def)
  define wd where "wd = wc\<lparr>call_pos := Suc (call_pos wc),
      sent := sent wc @ [bytes_of_string ''get-all'']\<rparr>"
  have w3: "conn_Write (bytes_of_string ''get-all'') wc = ((7, None), wd)"
    using c(5) by (simp add: conn_Write_def next_call_def wa_def wb_def wc_def wd_def len7)
  define ns where "ns = min 4 (length st)"
  have n0: "ns \<noteq> 0"
    using st by (cases st) (simp_all add: ns_def)
  have r1: "conn_Read (replicate 4 0) wd
       = ((take ns st @ drop ns (replicate 4 0), ns, None), wd\<lparr>reads := Inr lb # rest\<rparr>)"
    using rd by (simp add: conn_Read_def wa_def wb_def wc_def wd_def Let_def ns_def)
  have r2: "readNativeUIntFromConn (wd\<lparr>reads := Inr lb # rest\<rparr>)
       = (Inr L, wd\<lparr>reads := rest\<rparr>)"
    using readNative_head [of "wd\<lparr>reads := Inr lb # rest\<rparr>" lb rest]
      readNative_frame [of wd w "[Inr lb]"] len
    by (simp add: wa_def wb_def wc_def wd_def)
  have plw: "plat wd = plat w"
    by (simp add: wa_def wb_def wc_def wd_def)
  note steps = pre w1 w2 w3 r1 r2 n0 plw
  show ?thesis
  proof (cases rest rule: conn_Read_cases)
    case eof
    then have r3: "conn_Read (replicate L 0) (wd\<lparr>reads := rest\<rparr>)
        = ((replicate L 0, 0, Some (ErrOS ''EOF'')), wd\<lparr>reads := []\<rparr>)"
      by (simp add: conn_Read_def)
    have "gatherFromV3Server_conn address (next_conn w) wa =
      (if L = 0 then (Some ErrZeroLength, wd\<lparr>reads := rest\<rparr>)
       else if L > maxAlloc (plat w) then (Some PanicMakeSlice, wd\<lparr>reads := rest\<rparr>)
       else (Some (ErrOS ''EOF''), wd\<lparr>reads := []\<rparr>))"
      using steps r3 by (simp add: gatherFromV3Server_conn_def Let_def)
    then show ?thesis
      using dial eof
      by (simp add: gatherFromV3Server_def conn_Close_def v3_done_def
          wa_def wb_def wc_def wd_def)
  next
    case (err e rs)
    then have r3: "conn_Read (replicate L 0) (wd\<lparr>reads := rest\<rparr>)
        = ((replicate L 0, 0, Some e), wd\<lparr>reads := rs\<rparr>)"
      by (simp add: conn_Read_def)
    have "gatherFromV3Server_conn address (next_conn w) wa =
      (if L = 0 then (Some ErrZeroLength, wd\<lparr>reads := rest\<rparr>)
       else if L > maxAlloc (plat w) then (Some PanicMakeSlice, wd\<lparr>reads := rest\<rparr>)
       else (Some e, wd\<lparr>reads := rs\<rparr>))"
      using steps r3 by (simp add: gatherFromV3Server_conn_def Let_def)
    then show ?thesis
      using dial err
      by (simp add: gatherFromV3Server_def conn_Close_def v3_done_def
          wa_def wb_def wc_def wd_def)
  next
    case (data bs rs)
    then have r3: "conn_Read (replicate L 0) (wd\<lparr>reads := rest\<rparr>)
        = ((take (min L (length bs)) bs @ drop (min L (length bs)) (replicate L 0),
            min L (length bs), None), wd\<lparr>reads := rs\<rparr>)"
      by (simp add: conn_Read_def Let_def)
    have full: "\<not> length bs < L \<Longrightarrow> min L (length bs) = L" by simp
    have "gatherFromV3Server_conn address (next_conn w) wa =
      (if L = 0 then (Some ErrZeroLength, wd\<lparr>reads := rest\<rparr>)
       else if L > maxAlloc (plat w) then (Some PanicMakeSlice, wd\<lparr>reads := rest\<rparr>)
       else if length bs < L then (Some (ErrShortBody L (length bs)), wd\<lparr>reads := rs\<rparr>)
       else conn_Close (next_conn w)
              (acc_AddFields ''powerdns_recursor'' (parseResponse (string_of_bytes (take L bs)))
                 [''server'' \<mapsto> address] (wd\<lparr>reads := rs\<rparr>)))"
      using steps r3 by (auto simp add: gatherFromV3Server_conn_def Let_def min_def)
    then show ?thesis
      using dial data
      by (simp add: gatherFromV3Server_def conn_Close_def v3_done_def acc_AddFields_def
          wa_def wb_def wc_def wd_def)
  qed
qed

text \<open>
  C7. In the v3 exchange, when the declared response length decodes to zero, the call
  fails with the error "received data length was 0" and the accumulator receives no
  fields: the empty response is not a valid empty set of metrics.
\<close>

theorem v3_zero_length_is_error:
  assumes calls: "\<forall>i<5. call_errs w (call_pos w + i) = None"
    and rd: "reads w = Inr st # Inr lb # rest" and st: "st \<noteq> []"
    and zero: "fst (readNativeUIntFromConn (w\<lparr>reads := [Inr lb]\<rparr>)) = Inr 0"
  shows "fst (gatherFromV3Server address w) = Some ErrZeroLength
         \<and> acc_fields (snd (gatherFromV3Server address w)) = acc_fields w"
  using v3_exchange [OF calls rd st zero, of address] by (simp add: v3_done_def)

text \<open>
  C6. In the v3 exchange, when the declared length is \<open>L\<close> and the read of the body returns
  a number of bytes other than \<open>L\<close>, the call fails with the error "expected L bytes but
  got n" and the accumulator receives no fields: the partial body is never decoded.
\<close>

theorem v3_short_body_is_error:
  assumes calls: "\<forall>i<5. call_errs w (call_pos w + i) = None"
    and rd: "reads w = Inr st # Inr lb # Inr body # rest" and st: "st \<noteq> []"
    and len: "fst (readNativeUIntFromConn (w\<lparr>reads := [Inr lb]\<rparr>)) = Inr L"
    and alloc: "L \<le> maxAlloc (plat w)"
    and short: "min L (length body) \<noteq> L"
  shows "fst (gatherFromV3Server address w) = Some (ErrShortBody L (min L (length body)))
         \<and> acc_fields (snd (gatherFromV3Server address w)) = acc_fields w"
  using v3_exchange [OF calls rd st len, of address] alloc short
  by (auto simp add: v3_done_def min_def)


theorem v3_zero_length_is_error_witness:
  "fst (gatherFromV3Server ''/run/pdns.sock''
          ((idle_world (test_platform 8 LittleEndian))
             \<lparr>reads := [Inr [0, 0, 0, 0], Inr [0, 0, 0, 0, 0, 0, 0, 0]]\<rparr>))
     = Some ErrZeroLength
   \<and> acc_fields (snd (gatherFromV3Server ''/run/pdns.sock''
          ((idle_world (test_platform 8 LittleEndian))
             \<lparr>reads := [Inr [0, 0, 0, 0], Inr [0, 0, 0, 0, 0, 0, 0, 0]]\<rparr>))) = []"
  using v3_zero_length_is_error [of "(idle_world (test_platform 8 LittleEndian))
             \<lparr>reads := [Inr [0, 0, 0, 0], Inr [0, 0, 0, 0, 0, 0, 0, 0]]\<rparr>"
      "[0, 0, 0, 0]" "[0, 0, 0, 0, 0, 0, 0, 0]" "[]" "''/run/pdns.sock''"]
  by (simp add: idle_world_def test_platform_def readNativeUIntFromConn_def conn_Read_def
      getEndianness_def)

theorem v3_short_body_is_error_witness:
  "fst (gatherFromV3Server ''/run/pdns.sock''
          ((idle_world (test_platform 4 BigEndian))
             \<lparr>reads := [Inr [0, 0, 0, 0], Inr [0, 0, 0, 8],
                        Inr (bytes_of_string (''a'' @ [TAB] @ ''1'' @ [NL]))]\<rparr>))
     = Some (ErrShortBody 8 4)
   \<and> acc_fields (snd (gatherFromV3Server ''/run/pdns.sock''
          ((idle_world (test_platform 4 BigEndian))
             \<lparr>reads := [Inr [0, 0, 0, 0], Inr [0, 0, 0, 8],
                        Inr (bytes_of_string (''a'' @ [TAB] @ ''1'' @ [NL]))]\<rparr>))) = []"
  using v3_short_body_is_error [of "(idle_world (test_platform 4 BigEndian))
             \<lparr>reads := [Inr [0, 0, 0, 0], Inr [0, 0, 0, 8],
                        Inr (bytes_of_string (''a'' @ [TAB] @ ''1'' @ [NL]))]\<rparr>"
      "[0, 0, 0, 0]" "[0, 0, 0, 8]" "bytes_of_string (''a'' @ [TAB] @ ''1'' @ [NL])" "[]" 8
      "''/run/pdns.sock''"]
  by (simp add: idle_world_def test_platform_def readNativeUIntFromConn_def conn_Read_def
      getEndianness_def bytes_of_string_def)

text \<open>
  What \<^verbatim>\<open>gatherFromV3Server\<close> writes when its system calls succeed, whatever the peer
  answers: the four zero bytes, the native encoding of 7, and \<^verbatim>\<open>get-all\<close>.
\<close>

lemma v3_request_sent:
  assumes calls: "\<forall>i<5. call_errs w (call_pos w + i) = None"
    and width: "uintSizeInBytes (plat w) = 4 \<or> uintSizeInBytes (plat w) = 8"
  shows "sent (snd (gatherFromV3Server address w))
           = sent w @ [[0, 0, 0, 0], native_bytes (plat w) 7, bytes_of_string ''get-all'']"
proof -
  note c = five_calls [OF calls]
  have len7: "length (bytes_of_string ''get-all'') = 7"
    by (simp add: bytes_of_string_def)
  define wa where "wa = w\<lparr>dials := dials w @ [address], call_pos := Suc (call_pos w),
      open_conns := insert (next_conn w) (open_conns w), next_conn := Suc (next_conn w)\<rparr>"
  have dial: "net_Dial address w = (Inr (next_conn w), wa)"
    using c(1) by (simp add: net_Dial_def next_call_def wa_def)
  define wb where "wb = wa\<lparr>call_pos := Suc (Suc (Suc (call_pos w))), sent := sent w @ [[0, 0, 0, 0]]\<rparr>"
  have pre: "conn_SetDeadline wa = (None, wa\<lparr>call_pos := Suc (Suc (call_pos w))\<rparr>)"
    using c(2) by (simp add: conn_SetDeadline_def next_call_def wa_def)
  have w1: "conn_Write [0, 0, 0, 0] (wa\<lparr>call_pos := Suc (Suc (call_pos w))\<rparr>) = ((4, None), wb)"
    using c(3) by (simp add: conn_Write_def next_call_def wa_def wb_def)
  define wc where "wc = wb\<lparr>call_pos := Suc (call_pos wb),
      sent := sent wb @ [native_bytes (plat w) 7]\<rparr>"
  have w2: "writeNativeUIntToConn (length (bytes_of_string ''get-all'')) wb
      = ((uintSizeInBytes (plat w), None), wc)"
    unfolding len7 using writeNative_ok [of wb 7] width c(4)
    by (simp add: wa_def wb_def wc_def)
  define wd where "wd = wc\<lparr>call_pos := Suc (call_pos wc),
      sent := sent wc @ [bytes_of_string ''get-all'']\<rparr>"
  have w3: "conn_Write (bytes_of_string ''get-all'') wc = ((7, None), wd)"
    using c(5) by (simp add: conn_Write_def next_call_def wa_def wb_def wc_def wd_def len7)
  have sd: "sent wd = sent w @ [[0, 0, 0, 0], native_bytes (plat w) 7, bytes_of_string ''get-all'']"
    by (simp add: wa_def wb_def wc_def wd_def)
  have "sent (snd (gatherFromV3Server_conn address (next_conn w) wa)) = sent wd"
    using pre w1 w2 w3
    by (auto simp add: gatherFromV3Server_conn_def Let_def conn_Read_def
        readNativeUIntFromConn_def conn_Close_def acc_AddFields_def
        split: list.splits sum.splits prod.splits if_splits option.splits)
  moreover obtain r w' where body: "gatherFromV3Server_conn address (next_conn w) wa = (r, w')"
    by (cases "gatherFromV3Server_conn address (next_conn w) wa")
  ultimately show ?thesis
    using dial sd by (simp add: gatherFromV3Server_def conn_Close_def)
qed


subsection \<open>The legacy driver\<close>


text \<open>
  The decoder of \<^verbatim>\<open>powerdns_recursor.go\<close> returns what the one of \<^verbatim>\<open>protocol_commons.go\<close>
  returns and touches nothing but the log.
\<close>

lemma parseResponse_log_loop_eq:
  "\<exists>ll. parseResponse_log_loop vs ls w
         = (parseResponse_loop vs ls, w\<lparr>log_lines := log_lines w @ ll\<rparr>)"
proof (induction ls arbitrary: vs w)
  case Nil
  have "w = w\<lparr>log_lines := log_lines w @ []\<rparr>" by simp
  then show ?case by (metis parseResponse_log_loop.simps(1) parseResponse_loop.simps(1))
next
  case (Cons l ls)
  show ?case
  proof (cases "length (Split l TAB) < 2")
    case True
    obtain ll where "parseResponse_log_loop vs ls w
          = (parseResponse_loop vs ls, w\<lparr>log_lines := log_lines w @ ll\<rparr>)"
      using Cons [of vs w] by blast
    then have "parseResponse_log_loop vs (l # ls) w
          = (parseResponse_loop vs (l # ls), w\<lparr>log_lines := log_lines w @ ll\<rparr>)"
      using True by (simp add: Let_def)
    then show ?thesis by blast
  next
    case False
    obtain i e where pi: "ParseInt (Split l TAB ! 1) = (i, e)"
      by (cases "ParseInt (Split l TAB ! 1)")
    show ?thesis
    proof (cases e)
      case None
      obtain ll where "parseResponse_log_loop (vs(Split l TAB ! 0 \<mapsto> i)) ls w
          = (parseResponse_loop (vs(Split l TAB ! 0 \<mapsto> i)) ls,
             w\<lparr>log_lines := log_lines w @ ll\<rparr>)"
        using Cons [of "vs(Split l TAB ! 0 \<mapsto> i)" w] by blast
      then have "parseResponse_log_loop vs (l # ls) w
          = (parseResponse_loop vs (l # ls), w\<lparr>log_lines := log_lines w @ ll\<rparr>)"
        using False pi None by (simp add: Let_def)
      then show ?thesis by blast
    next
      case (Some err)
      obtain ll where "parseResponse_log_loop vs ls (w\<lparr>log_lines := log_lines w @ [(l, err)]\<rparr>)
          = (parseResponse_loop vs ls,
             w\<lparr>log_lines := log_lines w @ [(l, err)]\<rparr>
              \<lparr>log_lines := log_lines (w\<lparr>log_lines := log_lines w @ [(l, err)]\<rparr>) @ ll\<rparr>)"
        using Cons [of vs "w\<lparr>log_lines := log_lines w @ [(l, err)]\<rparr>"] by blast
      then have "parseResponse_log_loop vs (l # ls) w
          = (parseResponse_loop vs (l # ls), w\<lparr>log_lines := log_lines w @ ((l, err) # ll)\<rparr>)"
        using False pi Some by (simp add: Let_def)
      then show ?thesis by blast
    qed
  qed
qed

lemma parseResponse_log_eq:
  "\<exists>ll. parseResponse_log s w = (parseResponse s, w\<lparr>log_lines := log_lines w @ ll\<rparr>)"
  using parseResponse_log_loop_eq [of Map.empty "take (length (Split s NL) - 1) (Split s NL)" w]
  by (simp add: parseResponse_log_def parseResponse_def Let_def)

lemma parseResponse_log_frame:
  assumes "parseResponse_log s w = (f, w')"
  shows "f = parseResponse s \<and> (\<exists>ll. w' = w\<lparr>log_lines := log_lines w @ ll\<rparr>)"
  using parseResponse_log_eq [of s w] assms by auto

lemma same_record_prims:
  "conn_SetDeadline w = (r, w') \<Longrightarrow> same_record w w'"
  "conn_Write b w = (rw, w') \<Longrightarrow> same_record w w'"
  "conn_Read buf w = (rr, w') \<Longrightarrow> same_record w w'"
  "conn_Close c w = (r, w') \<Longrightarrow> same_record w w'"
  "os_Chmod name m w = (r, w') \<Longrightarrow> same_record w w'"
  "parseResponse_log s w = (f, w') \<Longrightarrow> same_record w w'"
  by (auto simp add: same_record_def conn_SetDeadline_def conn_Write_def conn_Read_def
      conn_Close_def os_Chmod_def next_call_def Let_def
      dest!: parseResponse_log_frame
      split: prod.splits option.splits if_splits list.splits sum.splits)

lemma gatherServer_conn_frame:
  assumes "gatherServer_conn address newProtocol conn w = (r, w')"
  shows "dials w' = dials w \<and> acc_errors w' = acc_errors w \<and> fs w' = fs w
         \<and> (\<exists>more. acc_fields w' = acc_fields w @ more)"
  using assms
  by (auto simp add: gatherServer_conn_def acc_AddFields_def Let_def same_record_def
      dest!: same_record_prims
      split: prod.splits option.splits if_splits)

lemma ResolveUnixAddr_unixgram [simp]: "ResolveUnixAddr ''unixgram'' a = Inr a"
  by (simp add: ResolveUnixAddr_def)

lemma net_DialUnix_frame:
  assumes "net_DialUnix laddr raddr w = (res, w1)"
  shows "dials w1 = dials w @ [raddr] \<and> acc_errors w1 = acc_errors w
         \<and> acc_fields w1 = acc_fields w
         \<and> (fs w1 = fs w \<or> fs w1 = insert laddr (fs w))"
  using assms
  by (auto simp add: net_DialUnix_def next_call_def split: option.splits)

lemma gatherServer_sock_frame:
  assumes g: "gatherServer_sock p address newProtocol recvSocket laddr w = (r, w')"
  shows "dials w' = dials w @ [address] \<and> acc_errors w' = acc_errors w
         \<and> (fs w' = fs w \<or> fs w' = insert laddr (fs w))
         \<and> (\<exists>more. acc_fields w' = acc_fields w @ more)"
proof -
  obtain res w1 where d: "net_DialUnix laddr address w = (res, w1)"
    by (cases "net_DialUnix laddr address w")
  note f1 = net_DialUnix_frame [OF d]
  show ?thesis
  proof (cases res)
    case (Inl err)
    then have "w' = w1" using g d by (simp add: gatherServer_sock_def)
    then show ?thesis using f1 by simp
  next
    case (Inr conn)
    obtain rc w2 where c: "os_Chmod recvSocket (mode p) w1 = (rc, w2)"
      by (cases "os_Chmod recvSocket (mode p) w1")
    have f2: "same_record w1 w2" using c by (rule same_record_prims)
    show ?thesis
    proof (cases rc)
      case (Some err)
      then have "w' = w2" using g d c Inr by (simp add: gatherServer_sock_def)
      then show ?thesis using f1 f2 by (auto simp add: same_record_def)
    next
      case None
      obtain rb w3 where b: "gatherServer_conn address newProtocol conn w2 = (rb, w3)"
        by (cases "gatherServer_conn address newProtocol conn w2")
      note f3 = gatherServer_conn_frame [OF b]
      obtain rd w4 where cl: "conn_Close conn w3 = (rd, w4)"
        by (cases "conn_Close conn w3")
      have f4: "same_record w3 w4" using cl by (rule same_record_prims)
      have "w' = w4" using g d c Inr None b cl by (simp add: gatherServer_sock_def)
      then show ?thesis using f1 f2 f3 f4 by (auto simp add: same_record_def)
    qed
  qed
qed

lemma gatherServer_frame:
  assumes g: "gatherServer p address newProtocol w = (r, w')"
  shows "dials w' = dials w @ [address] \<and> acc_errors w' = acc_errors w
         \<and> fs w' = fs w - {recvSocket_name p (fst (rand_Int63 w))}
         \<and> (\<exists>more. acc_fields w' = acc_fields w @ more)"
proof -
  let ?n = "fst (rand_Int63 w)"
  let ?w1 = "snd (rand_Int63 w)"
  let ?recv = "recvSocket_name p ?n"
  obtain rb w2 where b: "gatherServer_sock p address newProtocol ?recv ?recv ?w1 = (rb, w2)"
    by (cases "gatherServer_sock p address newProtocol ?recv ?recv ?w1")
  note f = gatherServer_sock_frame [OF b]
  have w1: "dials ?w1 = dials w" "acc_errors ?w1 = acc_errors w" "fs ?w1 = fs w"
    "acc_fields ?w1 = acc_fields w"
    by (simp_all add: rand_Int63_def)
  have w': "w' = snd (os_Remove ?recv w2)"
    using g b by (simp add: gatherServer_def Let_def split: prod.splits)
  have rm: "dials (snd (os_Remove ?recv w2)) = dials w2"
    "acc_errors (snd (os_Remove ?recv w2)) = acc_errors w2"
    "acc_fields (snd (os_Remove ?recv w2)) = acc_fields w2"
    "fs (snd (os_Remove ?recv w2)) = fs w2 - {?recv}"
    by (simp_all add: os_Remove_def)
  from f have "fs w2 - {?recv} = fs w - {?recv}"
    using w1 by auto
  then show ?thesis
    using f w1 w' rm by simp
qed

text \<open>
  C9. Whatever happens in the legacy exchange once the local address is resolved (success,
  a failing bind, connect, chmod, deadline, write or read, an empty reply), the path of
  the receive socket does not exist when \<^verbatim>\<open>gatherServer\<close> returns, and the rest of the
  file system is as it was: the deferred \<^verbatim>\<open>os.Remove\<close> runs on every exit path.
\<close>

theorem gatherServer_removes_socket:
  "recvSocket_name p (fst (rand_Int63 w)) \<notin> fs (snd (gatherServer p address newProtocol w))
   \<and> fs (snd (gatherServer p address newProtocol w))
       = fs w - {recvSocket_name p (fst (rand_Int63 w))}"
proof -
  obtain r w' where g: "gatherServer p address newProtocol w = (r, w')"
    by (cases "gatherServer p address newProtocol w")
  from gatherServer_frame [OF g] show ?thesis
    by (simp add: g)
qed








subsection \<open>The orchestrator\<close>






subsection \<open>The request of the v3 branch of \<^verbatim>\<open>gatherServer\<close>\<close>

lemma six_calls:
  assumes "\<forall>i<6. call_errs w (call_pos w + i) = None"
  shows "call_errs w (call_pos w) = None"
    and "call_errs w (Suc (call_pos w)) = None"
    and "call_errs w (Suc (Suc (call_pos w))) = None"
    and "call_errs w (Suc (Suc (Suc (call_pos w)))) = None"
    and "call_errs w (Suc (Suc (Suc (Suc (call_pos w))))) = None"
    and "call_errs w (Suc (Suc (Suc (Suc (Suc (call_pos w)))))) = None"
  using assms [rule_format, of 0] assms [rule_format, of 1] assms [rule_format, of 2]
    assms [rule_format, of 3] assms [rule_format, of 4] assms [rule_format, of 5]
  by (simp_all add: numeral_eq_Suc)

lemma sent_prims:
  "conn_Read buf w = (rr, w') \<Longrightarrow> sent w' = sent w"
  "parseResponse_log s w = (f, w') \<Longrightarrow> sent w' = sent w"
  "conn_Close c w = (r, w') \<Longrightarrow> sent w' = sent w"
  by (auto simp add: conn_Read_def conn_Close_def Let_def
      dest!: parseResponse_log_frame
      split: prod.splits option.splits if_splits list.splits sum.splits)

text \<open>
  What \<^verbatim>\<open>gatherServer\<close> writes when it is called with \<^verbatim>\<open>newProtocol\<close> set and its six
  system calls (bind, connect, chmod, set deadline, two writes) succeed, whatever the peer
  answers: the four zero bytes and \<^verbatim>\<open>get-all\<close>, and no length in between.
\<close>

lemma gatherServer_v3_sent:
  assumes calls: "\<forall>i<6. call_errs w (call_pos w + i) = None"
  shows "sent (snd (gatherServer p address True w))
           = sent w @ [[0, 0, 0, 0], bytes_of_string ''get-all'']"
proof -
  note c = six_calls [OF calls]
  define recv where "recv = recvSocket_name p (fst (rand_Int63 w))"
  define w0 where "w0 = snd (rand_Int63 w)"
  have w0: "call_errs w0 = call_errs w" "call_pos w0 = call_pos w" "sent w0 = sent w"
    by (simp_all add: w0_def rand_Int63_def)
  define wa where "wa = w0\<lparr>dials := dials w0 @ [address], call_pos := Suc (Suc (call_pos w)),
      fs := insert recv (fs w0),
      open_conns := insert (next_conn w0) (open_conns w0), next_conn := Suc (next_conn w0)\<rparr>"
  have dial: "net_DialUnix recv address w0 = (Inr (next_conn w0), wa)"
    using c(1,2) w0 by (simp add: net_DialUnix_def next_call_def wa_def)
  define wb where "wb = wa\<lparr>call_pos := Suc (Suc (Suc (call_pos w)))\<rparr>"
  have chmod: "os_Chmod recv (mode p) wa = (None, wb)"
    using c(3) w0 by (simp add: os_Chmod_def next_call_def wa_def wb_def)
  define wc where "wc = wb\<lparr>call_pos := Suc (Suc (Suc (Suc (call_pos w))))\<rparr>"
  have dl: "conn_SetDeadline wb = (None, wc)"
    using c(4) w0 by (simp add: conn_SetDeadline_def next_call_def wa_def wb_def wc_def)
  define wd where "wd = wc\<lparr>call_pos := Suc (Suc (Suc (Suc (Suc (call_pos w))))),
      sent := sent w @ [[0, 0, 0, 0]]\<rparr>"
  have wr1: "conn_Write [0, 0, 0, 0] wc = ((4, None), wd)"
    using c(5) w0 by (simp add: conn_Write_def next_call_def wa_def wb_def wc_def wd_def)
  define we where "we = wd\<lparr>call_pos := Suc (Suc (Suc (Suc (Suc (Suc (call_pos w)))))),
      sent := sent w @ [[0, 0, 0, 0], bytes_of_string ''get-all'']\<rparr>"
  have wr2: "conn_Write (bytes_of_string ''get-all'') wd
      = ((length (bytes_of_string ''get-all''), None), we)"
    using c(6) w0 by (simp add: conn_Write_def next_call_def wa_def wb_def wc_def wd_def we_def)
  have se: "sent we = sent w @ [[0, 0, 0, 0], bytes_of_string ''get-all'']"
    by (simp add: we_def)
  obtain rb w3 where b: "gatherServer_conn address True (next_conn w0) wb = (rb, w3)"
    by (cases "gatherServer_conn address True (next_conn w0) wb")
  have "sent w3 = sent we"
    using b dl wr1 wr2
    by (auto simp add: gatherServer_conn_def Let_def acc_AddFields_def
        dest!: sent_prims
        split: prod.splits option.splits if_splits)
  moreover obtain rc w4 where cl: "conn_Close (next_conn w0) w3 = (rc, w4)"
    by (cases "conn_Close (next_conn w0) w3")
  moreover have "sent w4 = sent w3" using cl by (rule sent_prims)
  moreover have "gatherServer_sock p address True recv recv w0 = (rb, w4)"
    using dial chmod b cl by (simp add: gatherServer_sock_def)
  ultimately show ?thesis
    using se by (simp add: gatherServer_def Let_def os_Remove_def recv_def w0_def
        case_prod_unfold)
qed

text \<open>
  C2, on the path the flag selects. \<^verbatim>\<open>Gather\<close> passes \<^verbatim>\<open>NewControlProtocol\<close> to
  \<^verbatim>\<open>gatherServer\<close>, whose exchange is a datagram one (for PowerDNS 4.5.0 or newer): each
  datagram carries its own boundary and there is no length field, on the request or on
  the reply. With \<^verbatim>\<open>new_control_protocol = true\<close> and one socket configured, on a 64-bit
  little-endian machine, the bytes written are the four zero bytes followed directly by
  \<^verbatim>\<open>get-all\<close>; no native-width length stands between them.
\<close>

theorem gatherServer_v3_request_has_no_length:
  "concat (sent (snd (Gather (v3_config [''/var/run/pdns_recursor.controlsocket''])
                        (idle_world (test_platform 8 LittleEndian)))))
     = [0, 0, 0, 0] @ bytes_of_string ''get-all''
   \<and> concat (sent (snd (Gather (v3_config [''/var/run/pdns_recursor.controlsocket''])
                        (idle_world (test_platform 8 LittleEndian)))))
     \<noteq> [0, 0, 0, 0] @ native_bytes (test_platform 8 LittleEndian) 7
           @ bytes_of_string ''get-all''"
proof -
  let ?w = "idle_world (test_platform 8 LittleEndian)"
  let ?p = "v3_config [''/var/run/pdns_recursor.controlsocket'']"
  have "\<forall>i<6. call_errs ?w (call_pos ?w + i) = None"
    by (simp add: idle_world_def)
  then have s: "sent (snd (gatherServer ?p ''/var/run/pdns_recursor.controlsocket'' True ?w))
      = sent ?w @ [[0, 0, 0, 0], bytes_of_string ''get-all'']"
    by (rule gatherServer_v3_sent)
  have "sent (snd (Gather ?p ?w))
      = sent (snd (gatherServer ?p ''/var/run/pdns_recursor.controlsocket'' True ?w))"
    by (simp add: Gather_def v3_config_def acc_AddError_def split: prod.splits option.splits)
  with s have "sent (snd (Gather ?p ?w)) = [[0, 0, 0, 0], bytes_of_string ''get-all'']"
    by (simp add: idle_world_def)
  then show ?thesis
    by (simp add: bytes_of_string_def native_bytes_def test_platform_def)
qed


text \<open>
  C2. The v3 stream driver \<^verbatim>\<open>gatherFromV3Server\<close>, when its five system calls (connect, set
  deadline, three writes) succeed on a platform of native width 4 or 8, writes exactly
  three payloads, whatever the peer answers: four zero bytes, the native-width host-order
  encoding of 7 (the length of the command), and \<^verbatim>\<open>get-all\<close> without a line break. The
  datagram branch of \<^verbatim>\<open>gatherServer\<close>, which is what the flag \<^verbatim>\<open>NewControlProtocol\<close>
  selects, writes the four zero bytes and \<^verbatim>\<open>get-all\<close> without a line break when its
  system calls succeed, and no length.
\<close>

theorem v3_request_bytes:
  assumes calls: "\<forall>i<5. call_errs w (call_pos w + i) = None"
    and width: "uintSizeInBytes (plat w) = 4 \<or> uintSizeInBytes (plat w) = 8"
  shows "sent (snd (gatherFromV3Server address w))
           = sent w @ [[0, 0, 0, 0], native_bytes (plat w) 7, bytes_of_string ''get-all'']
         \<and> length (native_bytes (plat w) 7) = uintSizeInBytes (plat w)
         \<and> (call_errs w (call_pos w + 5) = None \<longrightarrow>
              sent (snd (gatherServer p address True w))
                = sent w @ [[0, 0, 0, 0], bytes_of_string ''get-all''])"
proof -
  have a: "sent (snd (gatherFromV3Server address w))
           = sent w @ [[0, 0, 0, 0], native_bytes (plat w) 7, bytes_of_string ''get-all'']"
    using calls width by (rule v3_request_sent)
  have b: "length (native_bytes (plat w) 7) = uintSizeInBytes (plat w)"
    using width by (auto simp add: native_bytes_def length_PutUint32 length_PutUint64)
  have c: "sent (snd (gatherServer p address True w))
                = sent w @ [[0, 0, 0, 0], bytes_of_string ''get-all'']"
    if six: "call_errs w (call_pos w + 5) = None"
  proof (rule gatherServer_v3_sent)
    show "\<forall>i<6. call_errs w (call_pos w + i) = None"
    proof (intro allI impI)
      fix i :: nat assume "i < 6"
      then have "i < 5 \<or> i = 5" by arith
      then show "call_errs w (call_pos w + i) = None"
        using calls six by auto
    qed
  qed
  from a b c show ?thesis by blast
qed

theorem v3_request_bytes_witness:
  "sent (snd (gatherFromV3Server ''/var/run/pdns_recursor.controlsocket''
                (idle_world (test_platform 8 LittleEndian))))
     = [[0, 0, 0, 0], [7, 0, 0, 0, 0, 0, 0, 0], bytes_of_string ''get-all'']
   \<and> sent (snd (gatherFromV3Server ''/var/run/pdns_recursor.controlsocket''
                (idle_world (test_platform 4 BigEndian))))
     = [[0, 0, 0, 0], [0, 0, 0, 7], bytes_of_string ''get-all'']
   \<and> sent (snd (gatherServer (v3_config [''/var/run/pdns_recursor.controlsocket''])
                ''/var/run/pdns_recursor.controlsocket'' True
                (idle_world (test_platform 8 LittleEndian))))
     = [[0, 0, 0, 0], bytes_of_string ''get-all'']"
  using v3_request_bytes [of "idle_world (test_platform 8 LittleEndian)"
      "''/var/run/pdns_recursor.controlsocket''"
      "v3_config [''/var/run/pdns_recursor.controlsocket'']"]
    v3_request_bytes [of "idle_world (test_platform 4 BigEndian)"
      "''/var/run/pdns_recursor.controlsocket''"
      "v3_config [''/var/run/pdns_recursor.controlsocket'']"]
  by (simp add: idle_world_def test_platform_def native_bytes_def)

subsection \<open>A run over three targets\<close>





end
